theory Spec2Isabelle
  imports Main "HOL-Library.Sublist"
begin

section \<open>Python strings\<close>

text \<open>
  A Python \<open>str\<close> is a sequence of Unicode code points, and \<open>len\<close> counts code
  points. A string is therefore a list of code points, each a natural number; \<open>cp\<close>
  turns an ASCII literal into such a list. The letter o with acute accent of
  \<open>C\<acute>odigo\<close> is the single code point U+00F3 in \<open>api.py\<close>, the ordinal
  indicators are U+00BA and U+00AA.
\<close>

type_synonym pystr = "nat list"

definition cp :: "string \<Rightarrow> pystr" where
  "cp s = map of_char s"

text \<open>\<open>sub in s\<close> on two strings: \<open>sub\<close> occurs in \<open>s\<close> as a contiguous run,
  compared code point by code point (so with the letter case as written).\<close>

fun starts_with :: "pystr \<Rightarrow> pystr \<Rightarrow> bool" where
  "starts_with [] s = True"
| "starts_with (a # sub) [] = False"
| "starts_with (a # sub) (b # s) = (a = b \<and> starts_with sub s)"

fun str_in :: "pystr \<Rightarrow> pystr \<Rightarrow> bool" where
  "str_in sub [] = (sub = [])"
| "str_in sub (b # s) = (starts_with sub (b # s) \<or> str_in sub s)"

definition s_Lei :: pystr where "s_Lei = cp ''Lei''"
definition s_CDC :: pystr where "s_CDC = cp ''CDC''"
definition s_CC :: pystr where "s_CC = cp ''CC''"
definition s_Codigo :: pystr where "s_Codigo = cp ''C'' @ [0xF3] @ cp ''digo''"
definition s_Codigo_Civil :: pystr where "s_Codigo_Civil = s_Codigo @ cp '' Civil''"
definition s_Codigo_Penal :: pystr where "s_Codigo_Penal = s_Codigo @ cp '' Penal''"
definition s_Codigo_Defesa :: pystr where
  "s_Codigo_Defesa = s_Codigo @ cp '' de Defesa do Consumidor''"
definition lei_8078 :: pystr where "lei_8078 = cp ''Lei 8.078/90''"
definition lei_10406 :: pystr where "lei_10406 = cp ''Lei 10.406/2002''"

section \<open>The two mappings from a citation text to a law id\<close>

text \<open>
  \<open>analisar_discrepancias\<close>, lines 183 to 189: the branch one citation text takes in the
  loop that fills the set \<open>leis_identificadas\<close>. \<open>None\<close>: nothing is added.
\<close>

definition lei_identificada :: "pystr \<Rightarrow> pystr option" where
  "lei_identificada t =
     (if str_in s_Lei t then Some t
      else if str_in s_CDC t then Some lei_8078
      else if str_in s_Codigo_Civil t \<or> str_in s_CC t then Some lei_10406
      else None)"

text \<open>
  \<open>processar_documento_completo\<close>, lines 255 to 260: the guard of the loop body and the
  value of \<open>lei_busca\<close> after it. \<open>None\<close>: the guard is false and the citation is skipped.
\<close>

definition lei_busca :: "pystr \<Rightarrow> pystr option" where
  "lei_busca t =
     (if str_in s_Lei t \<or> str_in s_CDC t \<or> str_in s_Codigo t then
        Some (if str_in s_CDC t then lei_8078
              else if str_in s_Codigo_Civil t then lei_10406
              else t)
      else None)"

section \<open>Character classes of the \<open>re\<close> module\<close>

text \<open>
  For a \<open>str\<close> pattern, \<open>\s\<close> is Unicode white space (the same code points that
  \<open>str.strip\<close> removes) and \<open>\d\<close> is a Unicode decimal digit (category Nd; the
  table is the one of Unicode 14.0: blocks of ten digits, and the fifty mathematical
  digits from U+1D7CE).
\<close>

definition is_space :: "nat \<Rightarrow> bool" where
  "is_space c =
     ((0x09 \<le> c \<and> c \<le> 0x0D) \<or> (0x1C \<le> c \<and> c \<le> 0x20) \<or> c = 0x85 \<or> c = 0xA0
      \<or> c = 0x1680 \<or> (0x2000 \<le> c \<and> c \<le> 0x200A) \<or> c = 0x2028 \<or> c = 0x2029
      \<or> c = 0x202F \<or> c = 0x205F \<or> c = 0x3000)"

definition nd_blocks :: "nat list" where
  "nd_blocks =
     [48, 1632, 1776, 1984, 2406, 2534, 2662, 2790, 2918, 3046, 3174, 3302, 3430, 3558,
      3664, 3792, 3872, 4160, 4240, 6112, 6160, 6470, 6608, 6784, 6800, 6992, 7088, 7232,
      7248, 42528, 43216, 43264, 43472, 43504, 43600, 44016, 65296, 66720, 68912, 69734,
      69872, 69942, 70096, 70384, 70736, 70864, 71248, 71360, 71472, 71904, 72016, 72784,
      73040, 73120, 92768, 92864, 93008, 123200, 123632, 125264, 130032]"

definition is_decimal :: "nat \<Rightarrow> bool" where
  "is_decimal c =
     (if c < 1632 then 48 \<le> c \<and> c \<le> 57
      else list_ex (\<lambda>b. b \<le> c \<and> c < b + 10) nd_blocks \<or> (120782 \<le> c \<and> c \<le> 120831))"

text \<open>
  A literal of a pattern compiled with \<open>re.IGNORECASE\<close> matches a code point whose
  lowercase is the lowercase of the literal. For the literals of the six patterns
  (ASCII letters, U+00F3, U+00BA, U+00AA, the full stop, the solidus, the hyphen) these are: the literal,
  its other ASCII or Latin-1 case, and the three code points the \<open>re\<close> documentation
  names: U+0130 and U+0131 for \<open>i\<close>, U+017F for \<open>s\<close>. (U+212A stands for \<open>k\<close>,
  which no pattern has.)
\<close>

definition sre_lower :: "nat \<Rightarrow> nat" where
  "sre_lower c =
     (if (0x41 \<le> c \<and> c \<le> 0x5A) \<or> (0xC0 \<le> c \<and> c \<le> 0xDE \<and> c \<noteq> 0xD7) then c + 32 else c)"

definition lit_ok :: "nat \<Rightarrow> nat \<Rightarrow> bool" where
  "lit_ok p c =
     (sre_lower c = sre_lower p
      \<or> (sre_lower p = 0x69 \<and> (c = 0x130 \<or> c = 0x131))
      \<or> (sre_lower p = 0x73 \<and> c = 0x17F)
      \<or> (sre_lower p = 0x6B \<and> c = 0x212A))"

section \<open>The patterns and their matcher\<close>

text \<open>
  The six patterns need: one code point (a literal, \<open>\s\<close>, \<open>\d\<close>, a class), the
  greedy \<open>?\<close>, \<open>*\<close> and \<open>+\<close> on one code point, sequence and alternation. Capturing
  groups do not change \<open>group(0)\<close> and are not written.
\<close>

datatype atom = Lit nat | Space | Digit | OneOf "nat list"

datatype rx = Eps | One atom | Opt atom | Star atom | Plus atom | Seq rx rx | Alt rx rx

fun atom_ok :: "atom \<Rightarrow> nat \<Rightarrow> bool" where
  "atom_ok (Lit p) c = lit_ok p c"
| "atom_ok Space c = is_space c"
| "atom_ok Digit c = is_decimal c"
| "atom_ok (OneOf cs) c = list_ex (\<lambda>p. lit_ok p c) cs"

text \<open>
  \<open>rx_ends r s\<close>: the numbers of code points that \<open>r\<close> can consume at the start of
  \<open>s\<close>, in the order in which the backtracking matcher of \<open>re\<close> tries them: a greedy
  quantifier tries the longest run first, an alternation its left branch first. The match
  \<open>re\<close> reports at a position is the first of them.
\<close>

fun rx_ends :: "rx \<Rightarrow> pystr \<Rightarrow> nat list" where
  "rx_ends Eps s = [0]"
| "rx_ends (One a) s = (case s of [] \<Rightarrow> [] | c # _ \<Rightarrow> if atom_ok a c then [1] else [])"
| "rx_ends (Opt a) s = (case s of [] \<Rightarrow> [0] | c # _ \<Rightarrow> if atom_ok a c then [1, 0] else [0])"
| "rx_ends (Star a) s = rev [0 ..< Suc (length (takeWhile (atom_ok a) s))]"
| "rx_ends (Plus a) s = rev [1 ..< Suc (length (takeWhile (atom_ok a) s))]"
| "rx_ends (Seq r1 r2) s =
     concat (map (\<lambda>n. map (\<lambda>m. n + m) (rx_ends r2 (drop n s))) (rx_ends r1 s))"
| "rx_ends (Alt r1 r2) s = rx_ends r1 s @ rx_ends r2 s"

text \<open>
  \<open>re.finditer\<close>: the matches from left to right, none overlapping an earlier one.
  \<open>finditer r s off skip\<close> walks the rest \<open>s\<close> of the text, which starts at index
  \<open>off\<close>; \<open>skip\<close> counts the code points still covered by the last match, where no
  match may start.
\<close>

fun finditer :: "rx \<Rightarrow> pystr \<Rightarrow> nat \<Rightarrow> nat \<Rightarrow> (nat \<times> nat) list" where
  "finditer r [] off skip =
     (if 0 < skip then []
      else case rx_ends r [] of [] \<Rightarrow> [] | n # _ \<Rightarrow> [(off, off + n)])"
| "finditer r (c # s) off skip =
     (if 0 < skip then finditer r s (Suc off) (skip - 1)
      else case rx_ends r (c # s) of
             [] \<Rightarrow> finditer r s (Suc off) 0
           | n # _ \<Rightarrow> (off, off + n) # finditer r s (Suc off) (n - 1))"

fun seq :: "rx list \<Rightarrow> rx" where
  "seq [] = Eps"
| "seq (r # rs) = Seq r (seq rs)"

definition lits :: "pystr \<Rightarrow> rx list" where
  "lits s = map (\<lambda>c. One (Lit c)) s"

definition ordinal :: atom where
  "ordinal = OneOf [0xBA, 0xAA]"

definition padroes :: "rx list" where
  "padroes =
     [seq (lits (cp ''Lei'') @ [Plus Space, Opt (Lit 0x6E), Opt (Lit 0xBA), Star Space,
           Plus Digit, Opt (Lit 0x2E), Star Digit, Opt (Lit 0x2F), Opt (Lit 0x2D), Star Digit]),
      seq (lits (cp ''artigo'') @ [Plus Space, Plus Digit, Opt ordinal]),
      seq (lits (cp ''art.'') @ [Star Space, Plus Digit, Opt ordinal]),
      seq (lits s_Codigo @ [Plus Space,
           Alt (seq (lits (cp ''Civil'')))
               (Alt (seq (lits (cp ''Penal'')))
                    (seq (lits (cp ''de'') @ [Plus Space] @ lits (cp ''Defesa'') @ [Plus Space]
                          @ lits (cp ''do'') @ [Plus Space] @ lits (cp ''Consumidor''))))]),
      seq (lits s_CDC),
      seq (lits s_CC)]"

text \<open>
  Two texts that differ at most in the case of their letters: at each index the two code
  points are equal, or one is a capital letter of ASCII (\<open>A\<close> to \<open>Z\<close>) or of Latin-1
  (U+00C0 to U+00DE without the multiplication sign U+00D7) and the other is its small
  letter, 32 code points further on.
\<close>

definition small_of :: "nat \<Rightarrow> nat \<Rightarrow> bool" where
  "small_of a b =
     (((65 \<le> a \<and> a \<le> 90) \<or> (192 \<le> a \<and> a \<le> 222 \<and> a \<noteq> 215)) \<and> b = a + 32)"

definition same_letters :: "pystr \<Rightarrow> pystr \<Rightarrow> bool" where
  "same_letters s s' = list_all2 (\<lambda>a b. a = b \<or> small_of a b \<or> small_of b a) s s'"

text \<open>The code points that some position of a pattern accepts.\<close>

fun rx_chars :: "rx \<Rightarrow> nat \<Rightarrow> bool" where
  "rx_chars Eps c = False"
| "rx_chars (One a) c = atom_ok a c"
| "rx_chars (Opt a) c = atom_ok a c"
| "rx_chars (Star a) c = atom_ok a c"
| "rx_chars (Plus a) c = atom_ok a c"
| "rx_chars (Seq r1 r2) c = (rx_chars r1 c \<or> rx_chars r2 c)"
| "rx_chars (Alt r1 r2) c = (rx_chars r1 c \<or> rx_chars r2 c)"

text \<open>A check on a pattern that is enough to know that in no match of it the capital
  \<open>L\<close> (code point 76) stands anywhere but at the end.\<close>

fun l_only_last :: "rx \<Rightarrow> bool" where
  "l_only_last Eps = True"
| "l_only_last (One a) = True"
| "l_only_last (Opt a) = True"
| "l_only_last (Star a) = (\<not> atom_ok a 76)"
| "l_only_last (Plus a) = (\<not> atom_ok a 76)"
| "l_only_last (Seq r Eps) = l_only_last r"
| "l_only_last (Seq r1 r2) = (\<not> rx_chars r1 76 \<and> l_only_last r2)"
| "l_only_last (Alt r1 r2) = (l_only_last r1 \<and> l_only_last r2)"

section \<open>\<open>extrair_citacoes_legais\<close>\<close>

record citacao =
  texto :: pystr
  posicao :: "int \<times> int"
  tipo :: pystr

text \<open>\<open>s[i:j]\<close> for indices within \<open>0 \<le> i \<le> j\<close>, which is what a match's span gives.\<close>

definition slice :: "pystr \<Rightarrow> nat \<Rightarrow> nat \<Rightarrow> pystr" where
  "slice s i j = take (j - i) (drop i s)"

definition citacao_de :: "pystr \<Rightarrow> nat \<times> nat \<Rightarrow> citacao" where
  "citacao_de txt m =
     \<lparr>texto = slice txt (fst m) (snd m),
      posicao = (int (fst m), int (snd m)),
      tipo = (if str_in s_Lei (slice txt (fst m) (snd m)) then cp ''lei'' else cp ''artigo'')\<rparr>"

definition extrair_citacoes_legais :: "pystr \<Rightarrow> citacao list" where
  "extrair_citacoes_legais txt =
     concat (map (\<lambda>padrao. map (citacao_de txt) (finditer padrao txt 0 0)) padroes)"

section \<open>The collaborators\<close>

text \<open>
  A call of a Python function either raises or returns: its outcome is \<open>exn + 'a\<close>,
  with \<open>Inl\<close> the exception. The portal and the language model are outside the program
  and may answer differently each time; they are functions of a world \<open>'w\<close> that every
  call takes and hands back.
\<close>

datatype exn =
  ConnectionError | Timeout | MissingSchema | HTTPError | AttributeError
  | KeyError | TypeError | JSONDecodeError | ModelError | UnicodeEncodeError

text \<open>What \<open>json.loads\<close> returns: the Python value of a JSON document. An object is
  the list of its keys and values; a number that is not an integer keeps its literal.\<close>

datatype json =
  JNull | JBool bool | JInt int | JFloat pystr | JStr pystr
  | JArr "json list" | JObj "(pystr \<times> json) list"

record response =
  status_code :: nat
  body :: pystr

text \<open>
  What the code reads from the \<open>div\<close> of class \<open>item\<close> that \<open>BeautifulSoup.find\<close>
  returns: \<open>item_href\<close> is \<open>None\<close> when the element holds no \<open>a\<close>, otherwise the
  value of \<open>link.get('href', '')\<close>; \<open>item_h3\<close> is \<open>None\<close> when it holds no \<open>h3\<close>,
  otherwise that heading's \<open>get_text(strip=True)\<close>.
\<close>

record item =
  item_href :: "pystr option"
  item_h3 :: "pystr option"

record 'w env =
  requests_get :: "pystr \<Rightarrow> pystr option \<Rightarrow> 'w \<Rightarrow> (exn + response) \<times> 'w"
  soup_find_item :: "pystr \<Rightarrow> item option"
  soup_get_text :: "pystr \<Rightarrow> pystr"
  llm_discrepancias :: "pystr \<Rightarrow> citacao list \<Rightarrow> pystr \<Rightarrow> 'w \<Rightarrow> (exn + pystr) \<times> 'w"
  llm_simplificar :: "pystr \<Rightarrow> 'w \<Rightarrow> (exn + pystr) \<times> 'w"
  json_loads :: "pystr \<Rightarrow> exn + json"
  str_rank :: "pystr \<Rightarrow> nat"
  exn_str :: "exn \<Rightarrow> pystr"
  print_out :: "pystr \<Rightarrow> 'w \<Rightarrow> (exn + unit) \<times> 'w"

text \<open>
  \<open>requests_get url q w\<close> is \<open>requests.get(url, params={"q": q}, timeout=10)\<close>, or without
  \<open>params\<close> when \<open>q\<close> is \<open>None\<close>. \<open>soup_find_item\<close> and \<open>soup_get_text\<close> are
  \<open>BeautifulSoup(text, 'html.parser')\<close> followed by \<open>find('div', class_='item')\<close> and by
  \<open>get_text()\<close>. \<open>llm_discrepancias texto citacoes conteudo_leis\<close> is the content of the
  model's reply to the verification prompt filled with these three values (the citations
  go in as \<open>json.dumps\<close> writes them), \<open>llm_simplificar texto\<close> the content of its reply
  to the simplification prompt. \<open>json_loads\<close> is the parser of the \<open>json\<close> module.
  Iterating a Python set follows no order that the language defines: \<open>str_rank\<close> ranks
  the strings, and a set is iterated by rising rank. \<open>exn_str e\<close> is \<open>str(e)\<close>, and
  \<open>print_out s\<close> is \<open>print(s)\<close>, which raises when the standard output cannot take the
  line: \<open>UnicodeEncodeError\<close> for a code point that its encoding does not have.
\<close>

section \<open>\<open>buscar_conteudo_lei\<close>\<close>

record conteudo_lei =
  lei :: pystr
  titulo :: pystr
  link :: pystr
  conteudo :: pystr

definition base_url :: pystr where
  "base_url = cp ''https://www4.planalto.gov.br/legislacao/portal-legis/legislacao-1/decretos1/2025-decretos''"

definition url_busca :: pystr where
  "url_busca = base_url @ cp ''/legislacao-1/pesquisa''"

text \<open>\<open>response.raise_for_status()\<close> raises for a status from 400 to 599.\<close>

definition raise_for_status :: "response \<Rightarrow> exn + unit" where
  "raise_for_status r =
     (if 400 \<le> status_code r \<and> status_code r < 600 then Inl HTTPError else Inr ())"

text \<open>The body of the \<open>try\<close>, lines 101 to 130.\<close>

definition buscar_try :: "'w env \<Rightarrow> pystr \<Rightarrow> 'w \<Rightarrow> (exn + conteudo_lei option) \<times> 'w" where
  "buscar_try env lei_id w =
     (case requests_get env url_busca (Some lei_id) w of
        (Inl e, w1) \<Rightarrow> (Inl e, w1)
      | (Inr resp, w1) \<Rightarrow>
          (case raise_for_status resp of
             Inl e \<Rightarrow> (Inl e, w1)
           | Inr _ \<Rightarrow>
               (case soup_find_item env (body resp) of
                  None \<Rightarrow> (Inr None, w1)
                | Some primeiro_resultado \<Rightarrow>
                    (case item_href primeiro_resultado of
                       None \<Rightarrow> (Inr None, w1)
                     | Some url_completa \<Rightarrow>
                         if url_completa \<noteq> [] then
                           (case requests_get env url_completa None w1 of
                              (Inl e, w2) \<Rightarrow> (Inl e, w2)
                            | (Inr conteudo_response, w2) \<Rightarrow>
                                (case item_h3 primeiro_resultado of
                                   None \<Rightarrow> (Inl AttributeError, w2)
                                 | Some t \<Rightarrow>
                                     (Inr (Some \<lparr>lei = lei_id, titulo = t, link = url_completa,
                                        conteudo = take 5000
                                          (soup_get_text env (body conteudo_response))\<rparr>), w2)))
                         else (Inr None, w1)))))"

text \<open>The line that the \<open>except\<close> clause prints, line 133.\<close>

definition erro_buscar :: "pystr \<Rightarrow> pystr \<Rightarrow> pystr" where
  "erro_buscar lei_id msg = cp ''Erro ao buscar lei '' @ lei_id @ cp '': '' @ msg"

text \<open>The \<open>except Exception\<close> clause, lines 132 to 134: it prints the line and returns
  \<open>None\<close>. An exception that the \<open>print\<close> raises is raised inside the handler and
  leaves the function.\<close>

definition buscar_conteudo_lei :: "'w env \<Rightarrow> pystr \<Rightarrow> 'w \<Rightarrow> (exn + conteudo_lei option) \<times> 'w" where
  "buscar_conteudo_lei env lei_id w =
     (case buscar_try env lei_id w of
        (Inl e, w1) \<Rightarrow>
          (case print_out env (erro_buscar lei_id (exn_str env e)) w1 of
             (Inl e', w2) \<Rightarrow> (Inl e', w2)
           | (Inr _, w2) \<Rightarrow> (Inr None, w2))
      | (Inr r, w1) \<Rightarrow> (Inr r, w1))"

section \<open>\<open>analisar_discrepancias\<close>\<close>

text \<open>Lines 182 to 189: the set \<open>leis_identificadas\<close>, its elements in the order in
  which they were first added.\<close>

fun leis_identificadas :: "citacao list \<Rightarrow> pystr list \<Rightarrow> pystr list" where
  "leis_identificadas [] acc = acc"
| "leis_identificadas (cit # cits) acc =
     (case lei_identificada (texto cit) of
        None \<Rightarrow> leis_identificadas cits acc
      | Some l \<Rightarrow> leis_identificadas cits (if l \<in> set acc then acc else acc @ [l]))"

definition separador :: "pystr \<Rightarrow> pystr" where
  "separador l = [10] @ replicate 60 61 @ [10] @ l @ [10] @ replicate 60 61 @ [10]"

text \<open>Lines 191 to 196: the loop over the set, one fetch for each law.\<close>

fun juntar_conteudo :: "'w env \<Rightarrow> pystr list \<Rightarrow> pystr \<Rightarrow> 'w \<Rightarrow> (exn + pystr) \<times> 'w" where
  "juntar_conteudo env [] conteudo_leis w = (Inr conteudo_leis, w)"
| "juntar_conteudo env (l # ls) conteudo_leis w =
     (case buscar_conteudo_lei env l w of
        (Inl e, w1) \<Rightarrow> (Inl e, w1)
      | (Inr None, w1) \<Rightarrow> juntar_conteudo env ls conteudo_leis w1
      | (Inr (Some c), w1) \<Rightarrow>
          juntar_conteudo env ls (conteudo_leis @ separador l @ take 2000 (conteudo c)) w1)"

definition sem_conteudo :: pystr where
  "sem_conteudo = cp ''N'' @ [0xE3] @ cp ''o foi poss'' @ [0xED] @ cp ''vel buscar o conte''
     @ [0xFA] @ cp ''do das leis.''"

text \<open>Lines 182 to 199: all that runs before the \<open>try\<close>.\<close>

definition conteudo_das_leis :: "'w env \<Rightarrow> citacao list \<Rightarrow> 'w \<Rightarrow> (exn + pystr) \<times> 'w" where
  "conteudo_das_leis env citacoes w =
     (case juntar_conteudo env (sort_key (str_rank env) (leis_identificadas citacoes [])) [] w of
        (Inl e, w1) \<Rightarrow> (Inl e, w1)
      | (Inr conteudo_leis, w1) \<Rightarrow>
          (Inr (if conteudo_leis = [] then sem_conteudo else conteudo_leis), w1))"

definition strip :: "pystr \<Rightarrow> pystr" where
  "strip s = rev (dropWhile is_space (rev (dropWhile is_space s)))"

fun split_nl :: "pystr \<Rightarrow> pystr list" where
  "split_nl [] = [[]]"
| "split_nl (c # s) =
     (if c = 10 then [] # split_nl s
      else case split_nl s of [] \<Rightarrow> [[c]] | l # ls \<Rightarrow> (c # l) # ls)"

fun join_nl :: "pystr list \<Rightarrow> pystr" where
  "join_nl [] = []"
| "join_nl [l] = l"
| "join_nl (l # m # ls) = l @ [10] @ join_nl (m # ls)"

text \<open>Lines 210 to 212: \<open>strip\<close>, and for a reply that starts with three backquotes the
  lines \<open>[1:-1]\<close> of it.\<close>

definition limpar :: "pystr \<Rightarrow> pystr" where
  "limpar r =
     (let resultado = strip r in
      if starts_with (cp ''```'') resultado then join_nl (butlast (tl (split_nl resultado)))
      else resultado)"

definition s_discrepancias :: pystr where
  "s_discrepancias = cp ''discrepancias''"

text \<open>\<open>v[key]\<close> on a parsed JSON value: only an object can be read by a string key.\<close>

fun subscript :: "json \<Rightarrow> pystr \<Rightarrow> exn + json" where
  "subscript (JObj kvs) k = (case map_of kvs k of None \<Rightarrow> Inl KeyError | Some v \<Rightarrow> Inr v)"
| "subscript v k = Inl TypeError"

text \<open>The body of the \<open>try\<close>, lines 204 to 214.\<close>

definition analisar_try ::
  "'w env \<Rightarrow> pystr \<Rightarrow> citacao list \<Rightarrow> pystr \<Rightarrow> 'w \<Rightarrow> (exn + json) \<times> 'w" where
  "analisar_try env txt citacoes conteudo_leis w =
     (case llm_discrepancias env txt citacoes conteudo_leis w of
        (Inl e, w1) \<Rightarrow> (Inl e, w1)
      | (Inr resultado, w1) \<Rightarrow>
          (case json_loads env (limpar resultado) of
             Inl e \<Rightarrow> (Inl e, w1)
           | Inr v \<Rightarrow> (subscript v s_discrepancias, w1)))"

text \<open>The line that the \<open>except\<close> clause prints, line 217.\<close>

definition erro_analisar :: "pystr \<Rightarrow> pystr" where
  "erro_analisar msg = cp ''Erro ao analisar: '' @ msg"

text \<open>The whole function: the fetches of lines 191 to 196 run before the \<open>try\<close>, so an
  exception that leaves \<open>buscar_conteudo_lei\<close> leaves this function too. The
  \<open>except Exception\<close> clause, lines 216 to 218, prints its line and returns the empty
  list; an exception that the \<open>print\<close> raises leaves the function.\<close>

definition analisar_discrepancias ::
  "'w env \<Rightarrow> pystr \<Rightarrow> citacao list \<Rightarrow> 'w \<Rightarrow> (exn + json) \<times> 'w" where
  "analisar_discrepancias env txt citacoes w =
     (case conteudo_das_leis env citacoes w of
        (Inl e, w1) \<Rightarrow> (Inl e, w1)
      | (Inr conteudo_leis, w1) \<Rightarrow>
          (case analisar_try env txt citacoes conteudo_leis w1 of
             (Inl e, w2) \<Rightarrow>
               (case print_out env (erro_analisar (exn_str env e)) w2 of
                  (Inl e', w3) \<Rightarrow> (Inl e', w3)
                | (Inr _, w3) \<Rightarrow> (Inr (JArr []), w3))
           | (Inr d, w2) \<Rightarrow> (Inr d, w2)))"

text \<open>A list of records, as the annotation \<open>List[Dict]\<close> of the result says.\<close>

fun lista_de_registros :: "json \<Rightarrow> bool" where
  "lista_de_registros (JArr xs) = list_all (\<lambda>x. case x of JObj _ \<Rightarrow> True | _ \<Rightarrow> False) xs"
| "lista_de_registros v = False"

section \<open>\<open>simplificar_texto\<close> and \<open>processar_documento_completo\<close>\<close>

definition simplificar_texto :: "'w env \<Rightarrow> pystr \<Rightarrow> 'w \<Rightarrow> (exn + pystr) \<times> 'w" where
  "simplificar_texto env txt w =
     (case llm_simplificar env txt w of
        (Inl e, w1) \<Rightarrow> (Inl e, w1)
      | (Inr r, w1) \<Rightarrow> (Inr (strip r), w1))"

record lei_encontrada =
  nome :: pystr
  link_lei :: pystr
  status :: pystr

record documento =
  textoSimplificado :: pystr
  discrepancias :: json
  leisEncontradas :: "lei_encontrada list"
  citacoesEncontradas :: int

definition entrada :: "conteudo_lei \<Rightarrow> lei_encontrada" where
  "entrada c = \<lparr>nome = titulo c, link_lei = link c, status = cp ''Vigente''\<rparr>"

text \<open>Lines 254 to 270: the loop over the citations, with \<open>leis_encontradas\<close> and the
  set \<open>leis_unicas\<close> as it goes.\<close>

fun reunir_leis ::
  "'w env \<Rightarrow> citacao list \<Rightarrow> lei_encontrada list \<Rightarrow> pystr list \<Rightarrow> 'w
    \<Rightarrow> (exn + lei_encontrada list \<times> pystr list) \<times> 'w" where
  "reunir_leis env [] leis_encontradas leis_unicas w = (Inr (leis_encontradas, leis_unicas), w)"
| "reunir_leis env (cit # cits) leis_encontradas leis_unicas w =
     (case lei_busca (texto cit) of
        None \<Rightarrow> reunir_leis env cits leis_encontradas leis_unicas w
      | Some l \<Rightarrow>
          if l \<in> set leis_unicas then reunir_leis env cits leis_encontradas leis_unicas w
          else
            (case buscar_conteudo_lei env l w of
               (Inl e, w1) \<Rightarrow> (Inl e, w1)
             | (Inr None, w1) \<Rightarrow> reunir_leis env cits leis_encontradas (leis_unicas @ [l]) w1
             | (Inr (Some c), w1) \<Rightarrow>
                 reunir_leis env cits (leis_encontradas @ [entrada c]) (leis_unicas @ [l]) w1))"

definition processar_documento_completo ::
  "'w env \<Rightarrow> pystr \<Rightarrow> 'w \<Rightarrow> (exn + documento) \<times> 'w" where
  "processar_documento_completo env txt w =
     (let citacoes = extrair_citacoes_legais txt in
      case analisar_discrepancias env txt citacoes w of
        (Inl e, w1) \<Rightarrow> (Inl e, w1)
      | (Inr ds, w1) \<Rightarrow>
          (case simplificar_texto env txt w1 of
             (Inl e, w2) \<Rightarrow> (Inl e, w2)
           | (Inr texto_simplificado, w2) \<Rightarrow>
               (case reunir_leis env citacoes [] [] w2 of
                  (Inl e, w3) \<Rightarrow> (Inl e, w3)
                | (Inr (leis_encontradas, leis_unicas), w3) \<Rightarrow>
                    (Inr \<lparr>textoSimplificado = texto_simplificado,
                          discrepancias = ds,
                          leisEncontradas = leis_encontradas,
                          citacoesEncontradas = int (length citacoes)\<rparr>, w3))))"

section \<open>A portal and a model to run the program on\<close>

text \<open>
  A small world for running the definitions: it counts the calls made so far. The portal
  answers a search with one result that has a link and a heading, and answers the request
  for the link with a page of status 404; the model answers the verification prompt with
  a fixed reply and the simplification prompt with a fixed text. \<open>loads_teste\<close> gives
  the values that \<open>json.loads\<close> returns for the four documents used here. Every
  exception has the message \<open>erro\<close>.
\<close>

definition doc_vazio :: pystr where
  \<open>doc_vazio = cp ''{"discrepancias": []}''\<close>

definition doc_null :: pystr where
  \<open>doc_null = cp ''{"discrepancias": null}''\<close>

definition doc_ok :: pystr where
  \<open>doc_ok = cp ''{"discrepancias": [{"tipo": "ok"}]}''\<close>

definition doc_sem_chave :: pystr where
  \<open>doc_sem_chave = cp ''{"resultado": []}''\<close>

definition loads_teste :: "pystr \<Rightarrow> exn + json" where
  "loads_teste s =
     (if s = doc_vazio then Inr (JObj [(s_discrepancias, JArr [])])
      else if s = doc_sem_chave then Inr (JObj [(cp ''resultado'', JArr [])])
      else if s = doc_null then Inr (JObj [(s_discrepancias, JNull)])
      else if s = doc_ok then
        Inr (JObj [(s_discrepancias, JArr [JObj [(cp ''tipo'', JStr (cp ''ok''))]])])
      else Inl JSONDecodeError)"

definition item_teste :: item where
  "item_teste = \<lparr>item_href = Some (cp ''http://portal/lei''), item_h3 = Some (cp ''Lei'')\<rparr>"

definition get_teste :: "pystr \<Rightarrow> pystr option \<Rightarrow> nat \<Rightarrow> (exn + response) \<times> nat" where
  "get_teste url q w =
     (case q of
        Some _ \<Rightarrow> (Inr \<lparr>status_code = 200, body = cp ''resultados''\<rparr>, Suc w)
      | None \<Rightarrow> (Inr \<lparr>status_code = 404, body = cp ''Not Found''\<rparr>, Suc w))"

text \<open>\<open>print\<close> to a standard output in UTF-8 with strict error handling: a surrogate code
  point (U+D800 to U+DFFF) cannot be encoded.\<close>

definition print_utf8 :: "pystr \<Rightarrow> nat \<Rightarrow> (exn + unit) \<times> nat" where
  "print_utf8 s w =
     (if list_ex (\<lambda>c. 0xD800 \<le> c \<and> c \<le> 0xDFFF) s then (Inl UnicodeEncodeError, w)
      else (Inr (), w))"

definition env_teste :: "pystr \<Rightarrow> pystr \<Rightarrow> nat env" where
  "env_teste resposta simples =
     \<lparr>requests_get = get_teste,
      soup_find_item = (\<lambda>b. Some item_teste),
      soup_get_text = (\<lambda>b. b),
      llm_discrepancias = (\<lambda>t cs ctx w. (Inr resposta, Suc w)),
      llm_simplificar = (\<lambda>t w. (Inr simples, Suc w)),
      json_loads = loads_teste,
      str_rank = length,
      exn_str = (\<lambda>e. cp ''erro''),
      print_out = print_utf8\<rparr>"

definition env_base :: "nat env" where
  "env_base = env_teste doc_vazio (cp '' texto simples '')"



section \<open>Facts about strings\<close>

lemma starts_with_prefix: "starts_with sub s = prefix sub s"
  by (induction sub s rule: starts_with.induct) auto

lemma str_in_sublist: "str_in sub s = sublist sub s"
  by (induction s) (auto simp: starts_with_prefix sublist_Cons_right)

lemma str_in_trans: "str_in a b \<Longrightarrow> str_in b t \<Longrightarrow> str_in a t"
  unfolding str_in_sublist by (rule sublist_order.order_trans)

lemma str_in_self: "str_in t t"
  by (simp add: str_in_sublist)

lemma Codigo_in_Codigo_Civil: "str_in s_Codigo s_Codigo_Civil"
  by (simp add: str_in_sublist s_Codigo_Civil_def)

lemma Lei_in_lei_8078: "str_in s_Lei lei_8078"
  by (simp add: s_Lei_def lei_8078_def cp_def)

lemma Lei_in_lei_10406: "str_in s_Lei lei_10406"
  by (simp add: s_Lei_def lei_10406_def cp_def)

lemma CDC_notin_lei_8078: "\<not> str_in s_CDC lei_8078"
  by (simp add: s_CDC_def lei_8078_def cp_def)

lemma Codigo_Civil_notin_lei_10406: "\<not> str_in s_Codigo_Civil lei_10406"
  by (simp add: s_Codigo_Civil_def s_Codigo_def lei_10406_def cp_def)

lemma lei_ids_differ: "lei_8078 \<noteq> lei_10406"
  by (simp add: lei_8078_def lei_10406_def cp_def)

lemmas lit_defs = s_Lei_def s_CDC_def s_CC_def s_Codigo_def s_Codigo_Civil_def
  s_Codigo_Penal_def s_Codigo_Defesa_def lei_8078_def lei_10406_def cp_def

section \<open>Facts about the matcher\<close>

lemma rx_ends_le: "n \<in> set (rx_ends r s) \<Longrightarrow> n \<le> length s"
proof (induction r arbitrary: s n)
  case (Star a)
  have "length (takeWhile (atom_ok a) s) \<le> length s" by (rule length_takeWhile_le)
  with Star show ?case by auto
next
  case (Plus a)
  have "length (takeWhile (atom_ok a) s) \<le> length s" by (rule length_takeWhile_le)
  with Plus show ?case by auto
next
  case (Seq r1 r2)
  from Seq.prems obtain k m where k: "k \<in> set (rx_ends r1 s)"
    and m: "m \<in> set (rx_ends r2 (drop k s))" and n: "n = k + m"
    by auto
  from Seq.IH(1)[OF k] Seq.IH(2)[OF m] n show ?case by simp
qed (auto split: list.splits if_splits)

lemma finditer_span:
  "(a, b) \<in> set (finditer r s off skip) \<Longrightarrow> off \<le> a \<and> a \<le> b \<and> b \<le> off + length s"
proof (induction s arbitrary: off skip)
  case Nil
  show ?case
  proof (cases "rx_ends r []")
    case Nil
    with Nil.prems show ?thesis by (simp split: if_splits)
  next
    case (Cons n ns)
    then have "n = 0" using rx_ends_le[of n r "[]"] by simp
    with Cons Nil.prems show ?thesis by (simp split: if_splits)
  qed
next
  case (Cons c s)
  show ?case
  proof (cases "0 < skip")
    case True
    with Cons.prems have "(a, b) \<in> set (finditer r s (Suc off) (skip - 1))" by simp
    from Cons.IH[OF this] show ?thesis by simp
  next
    case False
    show ?thesis
    proof (cases "rx_ends r (c # s)")
      case Nil
      with False Cons.prems have "(a, b) \<in> set (finditer r s (Suc off) 0)" by simp
      from Cons.IH[OF this] show ?thesis by simp
    next
      case hit: (Cons n ns)
      then have "n \<le> length (c # s)" using rx_ends_le[of n r "c # s"] by simp
      moreover from False hit Cons.prems
      have "(a, b) = (off, off + n) \<or> (a, b) \<in> set (finditer r s (Suc off) (n - 1))" by simp
      ultimately show ?thesis using Cons.IH[of "Suc off" "n - 1"] by auto
    qed
  qed
qed

lemma extrair_cases:
  "c \<in> set (extrair_citacoes_legais txt) \<Longrightarrow>
     \<exists>padrao m. padrao \<in> set padroes \<and> m \<in> set (finditer padrao txt 0 0) \<and> c = citacao_de txt m"
  by (auto simp: extrair_citacoes_legais_def)

lemma sre_lower_eq:
  assumes "sre_lower a = sre_lower b" "a \<noteq> b"
  shows "(a + 32 = b \<or> b + 32 = a) \<and> 65 \<le> a \<and> a < 255 \<and> 65 \<le> b \<and> b < 255
         \<and> a \<noteq> 133 \<and> a \<noteq> 160 \<and> b \<noteq> 133 \<and> b \<noteq> 160"
proof -
  let ?up = "\<lambda>c::nat. (0x41 \<le> c \<and> c \<le> 0x5A) \<or> (0xC0 \<le> c \<and> c \<le> 0xDE \<and> c \<noteq> 0xD7)"
  have la: "sre_lower a = (if ?up a then a + 32 else a)" by (simp add: sre_lower_def)
  have lb: "sre_lower b = (if ?up b then b + 32 else b)" by (simp add: sre_lower_def)
  consider "?up a" "\<not> ?up b" | "?up b" "\<not> ?up a" | "?up a" "?up b" | "\<not> ?up a" "\<not> ?up b"
    by blast
  then show ?thesis
  proof cases
    case 1
    with la lb assms have "a + 32 = b" by simp
    with 1(1) show ?thesis by arith
  next
    case 2
    with la lb assms have "b + 32 = a" by simp
    with 2(1) show ?thesis by arith
  next
    case 3
    with la lb assms show ?thesis by simp
  next
    case 4
    with la lb assms show ?thesis by simp
  qed
qed

lemma not_space_letter: "65 \<le> c \<Longrightarrow> c < 255 \<Longrightarrow> c \<noteq> 133 \<Longrightarrow> c \<noteq> 160 \<Longrightarrow> \<not> is_space c"
  unfolding is_space_def by arith

lemma not_decimal_letter: "65 \<le> c \<Longrightarrow> c < 255 \<Longrightarrow> \<not> is_decimal c"
  unfolding is_decimal_def by simp

lemma lit_ok_lower: "sre_lower a = sre_lower b \<Longrightarrow> lit_ok p a = lit_ok p b"
proof (cases "a = b")
  case True then show ?thesis by simp
next
  case False
  assume eq: "sre_lower a = sre_lower b"
  from sre_lower_eq[OF eq False] have "a < 255" "b < 255" by simp_all
  then have "a \<noteq> 0x130" "a \<noteq> 0x131" "a \<noteq> 0x17F" "a \<noteq> 0x212A"
     "b \<noteq> 0x130" "b \<noteq> 0x131" "b \<noteq> 0x17F" "b \<noteq> 0x212A" by simp_all
  then show ?thesis using eq by (simp add: lit_ok_def)
qed

lemma atom_ok_lower: "sre_lower a = sre_lower b \<Longrightarrow> atom_ok x a = atom_ok x b"
proof (cases "a = b")
  case True then show ?thesis by simp
next
  case False
  assume eq: "sre_lower a = sre_lower b"
  note f = sre_lower_eq[OF eq False]
  from f have ns: "\<not> is_space a" "\<not> is_space b" by (simp_all add: not_space_letter)
  from f have nd: "\<not> is_decimal a" "\<not> is_decimal b" by (simp_all add: not_decimal_letter)
  show ?thesis
    by (cases x) (simp_all add: ns nd lit_ok_lower[OF eq] list_ex_iff)
qed

lemma takeWhile_same:
  "list_all2 (\<lambda>a b. sre_lower a = sre_lower b) s s' \<Longrightarrow>
     length (takeWhile (atom_ok x) s) = length (takeWhile (atom_ok x) s')"
proof (induction rule: list_all2_induct)
  case Nil
  show ?case by simp
next
  case (Cons a s b s')
  from atom_ok_lower[OF Cons.hyps(1)] Cons.IH show ?case by simp
qed

lemma rx_ends_same:
  "list_all2 (\<lambda>a b. sre_lower a = sre_lower b) s s' \<Longrightarrow> rx_ends r s = rx_ends r s'"
proof (induction r arbitrary: s s')
  case (One x)
  from One.prems show ?case
  proof (induction rule: list_all2_induct)
    case (Cons a s b s')
    from atom_ok_lower[OF Cons.hyps(1)] show ?case by simp
  qed simp
next
  case (Opt x)
  from Opt.prems show ?case
  proof (induction rule: list_all2_induct)
    case (Cons a s b s')
    from atom_ok_lower[OF Cons.hyps(1)] show ?case by simp
  qed simp
next
  case (Star x)
  then show ?case using takeWhile_same[OF Star.prems] by simp
next
  case (Plus x)
  then show ?case using takeWhile_same[OF Plus.prems] by simp
next
  case (Seq r1 r2)
  have d: "\<And>n. rx_ends r2 (drop n s) = rx_ends r2 (drop n s')"
    using Seq.prems by (intro Seq.IH(2) list_all2_dropI)
  show ?case using Seq.IH(1)[OF Seq.prems] d by simp
next
  case (Alt r1 r2)
  then show ?case by simp
qed simp

lemma finditer_same:
  "list_all2 (\<lambda>a b. sre_lower a = sre_lower b) s s' \<Longrightarrow>
     finditer r s off skip = finditer r s' off skip"
proof (induction arbitrary: off skip rule: list_all2_induct)
  case Nil
  then show ?case by simp
next
  case (Cons a s b s')
  have "rx_ends r (a # s) = rx_ends r (b # s')"
    using Cons.hyps by (intro rx_ends_same) simp
  then show ?case using Cons.IH by (simp split: list.splits)
qed

lemma posicao_extrair:
  "map posicao (extrair_citacoes_legais txt) =
     concat (map (\<lambda>padrao. map (\<lambda>m. (int (fst m), int (snd m))) (finditer padrao txt 0 0)) padroes)"
  by (simp add: extrair_citacoes_legais_def map_concat comp_def citacao_de_def)

lemmas rx_defs = extrair_citacoes_legais_def padroes_def lits_def citacao_de_def slice_def
  lit_ok_def sre_lower_def is_space_def is_decimal_def ordinal_def

lemma extrair_Lei_lei:
  "extrair_citacoes_legais (cp ''Lei 1 lei 2'') =
     [\<lparr>texto = cp ''Lei 1'', posicao = (0, 5), tipo = cp ''lei''\<rparr>,
      \<lparr>texto = cp ''lei 2'', posicao = (6, 11), tipo = cp ''artigo''\<rparr>]"
  by (simp add: rx_defs lit_defs)

lemma extrair_LEI_LEI:
  "map posicao (extrair_citacoes_legais (cp ''LEI 1 LEI 2'')) = [(0, 5), (6, 11)]"
  by (simp add: rx_defs lit_defs)

lemma small_of_lower: "a = b \<or> small_of a b \<or> small_of b a \<Longrightarrow> sre_lower a = sre_lower b"
  unfolding small_of_def sre_lower_def by auto

lemma same_letters_lower:
  "same_letters s s' \<Longrightarrow> list_all2 (\<lambda>a b. sre_lower a = sre_lower b) s s'"
  unfolding same_letters_def
  by (erule list_all2_mono) (rule small_of_lower)

lemma take_takeWhile:
  "n \<le> length (takeWhile P s) \<Longrightarrow> set (take n s) \<subseteq> {c. P c}"
proof (induction s arbitrary: n)
  case Nil
  then show ?case by simp
next
  case (Cons a s)
  then show ?case by (cases n) (auto split: if_splits)
qed

lemma rx_ends_chars: "n \<in> set (rx_ends r s) \<Longrightarrow> c \<in> set (take n s) \<Longrightarrow> rx_chars r c"
proof (induction r arbitrary: s n)
  case (Star a)
  then have "n \<le> length (takeWhile (atom_ok a) s)" by auto
  from take_takeWhile[OF this] Star.prems(2) show ?case by auto
next
  case (Plus a)
  then have "n \<le> length (takeWhile (atom_ok a) s)" by auto
  from take_takeWhile[OF this] Plus.prems(2) show ?case by auto
next
  case (Seq r1 r2)
  from Seq.prems(1) obtain k m where k: "k \<in> set (rx_ends r1 s)"
    and m: "m \<in> set (rx_ends r2 (drop k s))" and n: "n = k + m"
    by auto
  have "take n s = take k s @ take m (drop k s)" using n by (simp add: take_add)
  with Seq.prems(2) have "c \<in> set (take k s) \<or> c \<in> set (take m (drop k s))" by auto
  then show ?case using Seq.IH(1)[OF k] Seq.IH(2)[OF m] by auto
next
  case (One a)
  then show ?case by (cases s) (auto split: if_splits)
next
  case (Opt a)
  then show ?case by (cases s) (auto split: if_splits)
qed auto

lemma rx_ends_Seq_One:
  "n \<in> set (rx_ends (Seq (One a) r) s) \<Longrightarrow>
     \<exists>c s' m. s = c # s' \<and> atom_ok a c \<and> m \<in> set (rx_ends r s') \<and> n = Suc m"
  by (cases s) (auto split: if_splits)

lemma drop_Cons_shift: "Suc off \<le> a \<Longrightarrow> drop (a - off) (c # s) = drop (a - Suc off) s"
proof -
  assume "Suc off \<le> a"
  then have "a - off = Suc (a - Suc off)" by arith
  then show ?thesis by simp
qed

lemma finditer_match:
  "(a, b) \<in> set (finditer r s off skip) \<Longrightarrow>
     off \<le> a \<and> a \<le> b \<and> b - a \<in> set (rx_ends r (drop (a - off) s))"
proof (induction s arbitrary: off skip)
  case Nil
  show ?case
  proof (cases "rx_ends r []")
    case Nil
    with Nil.prems show ?thesis by (simp split: if_splits)
  next
    case (Cons n ns)
    then have "n \<in> set (rx_ends r [])" by simp
    with Cons Nil.prems show ?thesis by (simp split: if_splits)
  qed
next
  case (Cons c s)
  show ?case
  proof (cases "0 < skip")
    case True
    with Cons.prems have "(a, b) \<in> set (finditer r s (Suc off) (skip - 1))" by simp
    from Cons.IH[OF this] show ?thesis by (auto simp: drop_Cons_shift)
  next
    case False
    show ?thesis
    proof (cases "rx_ends r (c # s)")
      case Nil
      with False Cons.prems have "(a, b) \<in> set (finditer r s (Suc off) 0)" by simp
      from Cons.IH[OF this] show ?thesis by (auto simp: drop_Cons_shift)
    next
      case hit: (Cons n ns)
      from False hit Cons.prems
      consider "(a, b) = (off, off + n)" | "(a, b) \<in> set (finditer r s (Suc off) (n - 1))"
        by auto
      then show ?thesis
      proof cases
        case 1
        with hit show ?thesis by simp
      next
        case 2
        from Cons.IH[OF this] show ?thesis by (auto simp: drop_Cons_shift)
      qed
    qed
  qed
qed

lemma str_in_set: "str_in sub w \<Longrightarrow> set sub \<subseteq> set w"
  unfolding str_in_sublist by (rule set_mono_sublist)

lemma Lei_needs_L: "str_in s_Lei w \<Longrightarrow> 76 \<in> set w"
  using str_in_set[of s_Lei w] by (auto simp: s_Lei_def cp_def)

lemma Lei_not_last: "76 \<notin> set x \<Longrightarrow> \<not> str_in s_Lei (x @ [d])"
proof
  assume n: "76 \<notin> set x" and "str_in s_Lei (x @ [d])"
  then obtain u v where "x @ [d] = u @ [76, 101, 105] @ v"
    by (auto simp: str_in_sublist sublist_def s_Lei_def cp_def)
  then have "butlast (x @ [d]) = butlast (u @ 76 # 101 # 105 # v)" by simp
  then have "x = u @ 76 # 101 # butlast (105 # v)" by (simp add: butlast_append)
  with n show False by simp
qed

lemma Lei_only_first: "76 \<notin> set w \<Longrightarrow> str_in s_Lei (c # w) \<Longrightarrow> starts_with s_Lei (c # w)"
  using Lei_needs_L[of w] by auto


lemma l_only_last_butlast:
  "l_only_last r \<Longrightarrow> n \<in> set (rx_ends r s) \<Longrightarrow> 76 \<notin> set (butlast (take n s))"
proof (induction r arbitrary: n s)
  case Eps
  then show ?case by simp
next
  case (One a)
  then show ?case by (cases s) (auto split: if_splits)
next
  case (Opt a)
  then show ?case by (cases s) (auto split: if_splits)
next
  case (Star a)
  then have "\<And>c. c \<in> set (take n s) \<Longrightarrow> atom_ok a c"
    using rx_ends_chars[of n "Star a" s] by simp
  with Star have "76 \<notin> set (take n s)" by auto
  then show ?case using in_set_butlastD by fastforce
next
  case (Plus a)
  then have "\<And>c. c \<in> set (take n s) \<Longrightarrow> atom_ok a c"
    using rx_ends_chars[of n "Plus a" s] by simp
  with Plus have "76 \<notin> set (take n s)" by auto
  then show ?case using in_set_butlastD by fastforce
next
  case (Seq r1 r2)
  show ?case
  proof (cases "r2 = Eps")
    case True
    with Seq.prems have "l_only_last r1" "n \<in> set (rx_ends r1 s)" by auto
    then show ?thesis by (rule Seq.IH(1))
  next
    case False
    with Seq.prems(1) have no: "\<not> rx_chars r1 76" and l2: "l_only_last r2"
      by (cases r2; simp)+
    from Seq.prems(2) obtain k m where k: "k \<in> set (rx_ends r1 s)"
      and m: "m \<in> set (rx_ends r2 (drop k s))" and n: "n = k + m"
      by auto
    have t: "take n s = take k s @ take m (drop k s)" using n by (simp add: take_add)
    have a: "76 \<notin> set (take k s)" using rx_ends_chars[OF k] no by auto
    have b: "76 \<notin> set (butlast (take m (drop k s)))" using Seq.IH(2)[OF l2 m] .
    show ?thesis
    proof (cases "take m (drop k s) = []")
      case True
      with t a show ?thesis using in_set_butlastD by fastforce
    next
      case False
      with t a b show ?thesis by (simp add: butlast_append)
    qed
  qed
next
  case (Alt r1 r2)
  then show ?case by auto
qed

lemma l_only_last_no_Lei:
  "l_only_last r \<Longrightarrow> n \<in> set (rx_ends r s) \<Longrightarrow> \<not> str_in s_Lei (take n s)"
proof -
  assume "l_only_last r" "n \<in> set (rx_ends r s)"
  then have b: "76 \<notin> set (butlast (take n s))" by (rule l_only_last_butlast)
  show ?thesis
  proof (cases "take n s = []")
    case True
    show ?thesis unfolding True by (simp add: s_Lei_def cp_def)
  next
    case False
    then have "take n s = butlast (take n s) @ [last (take n s)]" by simp
    with Lei_not_last[OF b, of "last (take n s)"] show ?thesis by simp
  qed
qed

lemmas rx_eval = padroes_def lits_def lit_ok_def sre_lower_def is_space_def is_decimal_def
  ordinal_def s_CDC_def s_CC_def s_Codigo_def cp_def

lemma padrao_Lei:
  assumes "p \<in> set padroes" "n \<in> set (rx_ends p s)" "str_in s_Lei (take n s)"
  shows "starts_with s_Lei (take n s)"
proof -
  let ?rest = "Seq (One (Lit 101)) (Seq (One (Lit 105))
     (seq [Plus Space, Opt (Lit 0x6E), Opt (Lit 0xBA), Star Space,
           Plus Digit, Opt (Lit 0x2E), Star Digit, Opt (Lit 0x2F), Opt (Lit 0x2D), Star Digit]))"
  from assms(1) consider "p = Seq (One (Lit 76)) ?rest" | "l_only_last p"
    by (auto simp: rx_eval)
  then show ?thesis
  proof cases
    case 1
    with assms(2) obtain c s' m where s: "s = c # s'" and m: "m \<in> set (rx_ends ?rest s')"
      and n: "n = Suc m"
      using rx_ends_Seq_One[of n "Lit 76" ?rest s] by blast
    have "\<not> rx_chars ?rest 76" by (simp add: rx_eval)
    with rx_ends_chars[OF m] have "76 \<notin> set (take m s')" by auto
    with assms(3) s n show ?thesis using Lei_only_first[of "take m s'" c] by simp
  next
    case 2
    from l_only_last_no_Lei[OF 2 assms(2)] assms(3) show ?thesis by simp
  qed
qed

section \<open>The law id of a citation text\<close>

text \<open>
  C1, as the code has it. In \<open>analisar_discrepancias\<close> a citation text that contains
  \<open>Lei\<close> keeps its own text as its id; one without \<open>Lei\<close> that contains \<open>CDC\<close> gets
  the id \<open>Lei 8.078/90\<close>; one without \<open>Lei\<close> and \<open>CDC\<close> that contains
  \<open>C\<acute>odigo Civil\<close> or \<open>CC\<close> gets the id \<open>Lei 10.406/2002\<close>, which differs from the
  first; every other text has no id. So \<open>CDC\<close> maps to the first id,
  \<open>C\<acute>odigo Civil\<close> and \<open>CC\<close> to the second, and
  \<open>C\<acute>odigo de Defesa do Consumidor\<close> to none. The containment tests compare the
  letters with their case.
\<close>

theorem lei_identificada_mapping:
  "(\<forall>t. str_in s_Lei t \<longrightarrow> lei_identificada t = Some t)
   \<and> (\<forall>t. \<not> str_in s_Lei t \<and> str_in s_CDC t \<longrightarrow> lei_identificada t = Some lei_8078)
   \<and> (\<forall>t. \<not> str_in s_Lei t \<and> \<not> str_in s_CDC t \<and> (str_in s_Codigo_Civil t \<or> str_in s_CC t)
          \<longrightarrow> lei_identificada t = Some lei_10406)
   \<and> (\<forall>t. \<not> str_in s_Lei t \<and> \<not> str_in s_CDC t \<and> \<not> str_in s_Codigo_Civil t \<and> \<not> str_in s_CC t
          \<longrightarrow> lei_identificada t = None)
   \<and> lei_identificada s_CDC = Some lei_8078
   \<and> lei_identificada s_Codigo_Civil = Some lei_10406
   \<and> lei_identificada s_CC = Some lei_10406
   \<and> lei_identificada s_Codigo_Defesa = None
   \<and> lei_8078 \<noteq> lei_10406"
proof -
  have "lei_identificada s_CDC = Some lei_8078"
    by (simp add: lei_identificada_def lit_defs)
  moreover have "lei_identificada s_Codigo_Civil = Some lei_10406"
    by (simp add: lei_identificada_def lit_defs)
  moreover have "lei_identificada s_CC = Some lei_10406"
    by (simp add: lei_identificada_def lit_defs)
  moreover have "lei_identificada s_Codigo_Defesa = None"
    by (simp add: lei_identificada_def lit_defs)
  ultimately show ?thesis
    using lei_ids_differ by (simp add: lei_identificada_def)
qed

theorem lei_identificada_mapping_witness:
  "str_in s_Lei lei_8078 \<and> lei_identificada lei_8078 = Some lei_8078
   \<and> \<not> str_in s_Lei (cp ''o CDC'') \<and> str_in s_CDC (cp ''o CDC'')
   \<and> lei_identificada (cp ''o CDC'') = Some lei_8078
   \<and> \<not> str_in s_Lei (cp ''CCB'') \<and> \<not> str_in s_CDC (cp ''CCB'') \<and> str_in s_CC (cp ''CCB'')
   \<and> lei_identificada (cp ''CCB'') = Some lei_10406
   \<and> \<not> str_in s_Lei s_Codigo_Penal \<and> \<not> str_in s_CDC s_Codigo_Penal
   \<and> \<not> str_in s_Codigo_Civil s_Codigo_Penal \<and> \<not> str_in s_CC s_Codigo_Penal
   \<and> lei_identificada s_Codigo_Penal = None"
proof -
  have h1: "str_in s_Lei lei_8078" by (rule Lei_in_lei_8078)
  have h2: "\<not> str_in s_Lei (cp ''o CDC'') \<and> str_in s_CDC (cp ''o CDC'')"
    by (simp add: lit_defs)
  have h3: "\<not> str_in s_Lei (cp ''CCB'') \<and> \<not> str_in s_CDC (cp ''CCB'')
            \<and> (str_in s_Codigo_Civil (cp ''CCB'') \<or> str_in s_CC (cp ''CCB''))"
    by (simp add: lit_defs)
  have h4: "\<not> str_in s_Lei s_Codigo_Penal \<and> \<not> str_in s_CDC s_Codigo_Penal
            \<and> \<not> str_in s_Codigo_Civil s_Codigo_Penal \<and> \<not> str_in s_CC s_Codigo_Penal"
    by (simp add: lit_defs)
  have h5: "str_in s_CC (cp ''CCB'')" by (simp add: lit_defs)
  note m = lei_identificada_mapping
  from m h1 have "lei_identificada lei_8078 = Some lei_8078" by blast
  moreover from m h2 have "lei_identificada (cp ''o CDC'') = Some lei_8078" by blast
  moreover from m h3 have "lei_identificada (cp ''CCB'') = Some lei_10406" by blast
  moreover from m h4 have "lei_identificada s_Codigo_Penal = None" by blast
  ultimately show ?thesis using h1 h2 h3 h4 h5 by simp
qed

text \<open>
  C1 as it is written fails: \<open>C\<acute>odigo de Defesa do Consumidor\<close> and \<open>CDC\<close> do not get
  the same id, in neither of the two places that map a citation text to an id.
\<close>

theorem codigo_defesa_not_cdc:
  "lei_identificada s_Codigo_Defesa \<noteq> lei_identificada s_CDC
   \<and> lei_busca s_Codigo_Defesa \<noteq> lei_busca s_CDC"
  by (simp add: lei_identificada_def lei_busca_def lit_defs)

text \<open>
  C5, as the code has it. The mapping of \<open>analisar_discrepancias\<close> and the mapping of
  \<open>processar_documento_completo\<close> give a citation text the same outcome (the same id, or
  both leave it out) exactly in these cases: the text contains \<open>Lei\<close> and neither \<open>CDC\<close>
  nor \<open>C\<acute>odigo Civil\<close>; or it does not contain \<open>Lei\<close> and contains \<open>CDC\<close> or
  \<open>C\<acute>odigo Civil\<close>; or it contains none of \<open>Lei\<close>, \<open>CDC\<close>, \<open>CC\<close> and
  \<open>C\<acute>odigo\<close>. They differ on every other text: on \<open>CC\<close>, which only the first
  includes, and on \<open>C\<acute>odigo Penal\<close> and \<open>C\<acute>odigo de Defesa do Consumidor\<close>,
  which only the second includes, under their own text.
\<close>

theorem lei_identificada_eq_lei_busca_iff:
  "(lei_identificada t = lei_busca t) =
     (if str_in s_Lei t then \<not> str_in s_CDC t \<and> \<not> str_in s_Codigo_Civil t
      else str_in s_CDC t \<or> str_in s_Codigo_Civil t
           \<or> (\<not> str_in s_CC t \<and> \<not> str_in s_Codigo t))"
proof (cases "str_in s_Lei t")
  case True
  then have "t \<noteq> lei_8078 \<or> \<not> str_in s_CDC t" "t \<noteq> lei_10406 \<or> \<not> str_in s_Codigo_Civil t"
    using CDC_notin_lei_8078 Codigo_Civil_notin_lei_10406 by auto
  with True show ?thesis
    by (auto simp: lei_identificada_def lei_busca_def)
next
  case False
  have civ: "str_in s_Codigo_Civil t \<Longrightarrow> str_in s_Codigo t"
    using Codigo_in_Codigo_Civil str_in_trans by blast
  have "t \<noteq> lei_10406" using False Lei_in_lei_10406 by auto
  with False civ show ?thesis
    by (auto simp: lei_identificada_def lei_busca_def)
qed

theorem lei_identificada_eq_lei_busca_iff_witness:
  "\<not> str_in s_Lei s_Codigo_Civil \<and> str_in s_Codigo_Civil s_Codigo_Civil
   \<and> lei_identificada s_Codigo_Civil = lei_busca s_Codigo_Civil
   \<and> lei_busca s_Codigo_Civil = Some lei_10406"
proof -
  have h: "\<not> str_in s_Lei s_Codigo_Civil" by (simp add: lit_defs)
  have s: "str_in s_Codigo_Civil s_Codigo_Civil" by (rule str_in_self)
  from lei_identificada_eq_lei_busca_iff[of s_Codigo_Civil] h s
  have "lei_identificada s_Codigo_Civil = lei_busca s_Codigo_Civil" by simp
  moreover have "lei_busca s_Codigo_Civil = Some lei_10406" by (simp add: lei_busca_def lit_defs)
  ultimately show ?thesis using h s by simp
qed

text \<open>C5 as it is written fails: the citation \<open>CC\<close> is given an id by the first mapping
  and is left out by the second; \<open>C\<acute>odigo Penal\<close> the other way round.\<close>

theorem cc_only_in_analisar:
  "lei_identificada s_CC = Some lei_10406 \<and> lei_busca s_CC = None
   \<and> lei_identificada s_Codigo_Penal = None \<and> lei_busca s_Codigo_Penal = Some s_Codigo_Penal"
  by (simp add: lei_identificada_def lei_busca_def lit_defs)

section \<open>The citations that are extracted\<close>

lemma starts_with_str_in: "starts_with sub w \<Longrightarrow> str_in sub w"
  by (cases w) (auto elim: starts_with.elims)

text \<open>
  C6, as the code has it. The patterns match without regard to letter case: two texts that
  differ only in the case of their letters have their matches at the same spans. The kind
  is read from the matched text with the case as written: a citation has the kind \<open>lei\<close>
  exactly when its matched text contains \<open>Lei\<close> with a capital \<open>L\<close> and small \<open>e\<close>
  and \<open>i\<close>, and the kind \<open>artigo\<close> otherwise. For the six patterns this is exactly when
  the matched text begins with \<open>Lei\<close>, so only a match of the law-number pattern that is
  written \<open>Lei\<close> has the kind \<open>lei\<close>; a match of that pattern in any other letter case
  (\<open>lei 8.078/90\<close>, \<open>LEI 1\<close>) has the kind \<open>artigo\<close>.
\<close>

theorem tipo_lei_iff_starts_with_Lei:
  "(\<forall>c \<in> set (extrair_citacoes_legais txt).
      (tipo c = cp ''lei'' \<or> tipo c = cp ''artigo'')
      \<and> (tipo c = cp ''lei'') = str_in s_Lei (texto c)
      \<and> str_in s_Lei (texto c) = starts_with s_Lei (texto c))
   \<and> cp ''lei'' \<noteq> cp ''artigo''
   \<and> (\<forall>txt'. same_letters txt txt' \<longrightarrow>
         map posicao (extrair_citacoes_legais txt') = map posicao (extrair_citacoes_legais txt))"
proof (intro conjI ballI allI impI)
  fix c assume c: "c \<in> set (extrair_citacoes_legais txt)"
  then obtain padrao m where p: "padrao \<in> set padroes"
    and m: "m \<in> set (finditer padrao txt 0 0)" and cm: "c = citacao_de txt m"
    using extrair_cases by blast
  have ne: "cp ''lei'' \<noteq> cp ''artigo''" by (simp add: cp_def)
  from cm show "tipo c = cp ''lei'' \<or> tipo c = cp ''artigo''"
    by (simp add: citacao_de_def)
  from cm ne show "(tipo c = cp ''lei'') = str_in s_Lei (texto c)"
    by (simp add: citacao_de_def)
  obtain a b where ab: "m = (a, b)" by (cases m)
  with m have "b - a \<in> set (rx_ends padrao (drop a txt))"
    using finditer_match[of a b padrao "txt" 0 0] by simp
  moreover from cm ab have "texto c = take (b - a) (drop a txt)"
    by (simp add: citacao_de_def slice_def)
  ultimately have "str_in s_Lei (texto c) \<Longrightarrow> starts_with s_Lei (texto c)"
    using padrao_Lei[OF p] by simp
  then show "str_in s_Lei (texto c) = starts_with s_Lei (texto c)"
    using starts_with_str_in by blast
next
  show "cp ''lei'' \<noteq> cp ''artigo''" by (simp add: cp_def)
next
  fix txt' assume "same_letters txt txt'"
  then have "\<And>padrao. finditer padrao txt 0 0 = finditer padrao txt' 0 0"
    by (intro finditer_same same_letters_lower)
  then show "map posicao (extrair_citacoes_legais txt') = map posicao (extrair_citacoes_legais txt)"
    by (simp add: posicao_extrair)
qed

theorem tipo_lei_iff_starts_with_Lei_witness:
  "\<lparr>texto = cp ''Lei 1'', posicao = (0, 5), tipo = cp ''lei''\<rparr>
      \<in> set (extrair_citacoes_legais (cp ''Lei 1 lei 2''))
   \<and> \<lparr>texto = cp ''lei 2'', posicao = (6, 11), tipo = cp ''artigo''\<rparr>
      \<in> set (extrair_citacoes_legais (cp ''Lei 1 lei 2''))
   \<and> starts_with s_Lei (cp ''Lei 1'') \<and> \<not> str_in s_Lei (cp ''lei 2'')
   \<and> same_letters (cp ''Lei 1 lei 2'') (cp ''LEI 1 LEI 2'')
   \<and> map posicao (extrair_citacoes_legais (cp ''LEI 1 LEI 2'')) = [(0, 5), (6, 11)]"
proof -
  let ?t = "cp ''Lei 1 lei 2''"
  let ?c1 = "\<lparr>texto = cp ''Lei 1'', posicao = (0, 5), tipo = cp ''lei''\<rparr>"
  let ?c2 = "\<lparr>texto = cp ''lei 2'', posicao = (6, 11), tipo = cp ''artigo''\<rparr>"
  have in1: "?c1 \<in> set (extrair_citacoes_legais ?t)" and in2: "?c2 \<in> set (extrair_citacoes_legais ?t)"
    by (simp_all add: extrair_Lei_lei)
  have same: "same_letters ?t (cp ''LEI 1 LEI 2'')"
    by (simp add: same_letters_def small_of_def cp_def)
  have ne: "cp ''artigo'' \<noteq> cp ''lei''" by (simp add: cp_def)
  note k = tipo_lei_iff_starts_with_Lei[of ?t]
  from k in1 have "(tipo ?c1 = cp ''lei'') = str_in s_Lei (texto ?c1)"
    "str_in s_Lei (texto ?c1) = starts_with s_Lei (texto ?c1)" by blast+
  then have l1: "starts_with s_Lei (cp ''Lei 1'')" by simp
  from k in2 have "(tipo ?c2 = cp ''lei'') = str_in s_Lei (texto ?c2)" by blast
  with ne have l2: "\<not> str_in s_Lei (cp ''lei 2'')" by simp
  from k same have "map posicao (extrair_citacoes_legais (cp ''LEI 1 LEI 2''))
      = map posicao (extrair_citacoes_legais ?t)" by blast
  then have "map posicao (extrair_citacoes_legais (cp ''LEI 1 LEI 2'')) = [(0, 5), (6, 11)]"
    by (simp add: extrair_Lei_lei)
  with in1 in2 l1 l2 same show ?thesis by simp
qed

text \<open>
  C6 as it is written fails for a match in another letter case: the law-number pattern
  matches \<open>lei 8.078/90\<close>, written small, and the citation has the kind \<open>artigo\<close>; the
  same text written \<open>Lei 8.078/90\<close> has the kind \<open>lei\<close>.
\<close>

theorem law_match_in_small_letters:
  "extrair_citacoes_legais (cp ''lei 8.078/90'') =
     [\<lparr>texto = cp ''lei 8.078/90'', posicao = (0, 12), tipo = cp ''artigo''\<rparr>]
   \<and> extrair_citacoes_legais (cp ''Lei 8.078/90'') =
     [\<lparr>texto = cp ''Lei 8.078/90'', posicao = (0, 12), tipo = cp ''lei''\<rparr>]
   \<and> same_letters (cp ''lei 8.078/90'') (cp ''Lei 8.078/90'')"
  by (simp add: rx_defs lit_defs same_letters_def small_of_def)

text \<open>
  C9. Every citation that is extracted has a span with \<open>0 \<le> start \<le> end \<le> len(texto)\<close>,
  and its text is the part of the input between the two ends of its span.
\<close>

theorem posicao_within_text:
  "c \<in> set (extrair_citacoes_legais txt) \<Longrightarrow>
     0 \<le> fst (posicao c) \<and> fst (posicao c) \<le> snd (posicao c)
     \<and> snd (posicao c) \<le> int (length txt)
     \<and> texto c = take (nat (snd (posicao c)) - nat (fst (posicao c))) (drop (nat (fst (posicao c))) txt)
     \<and> int (length (texto c)) = snd (posicao c) - fst (posicao c)"
proof -
  assume "c \<in> set (extrair_citacoes_legais txt)"
  then obtain padrao m where m: "m \<in> set (finditer padrao txt 0 0)" and c: "c = citacao_de txt m"
    using extrair_cases by blast
  obtain a b where ab: "m = (a, b)" by (cases m)
  with m have le: "a \<le> b" "b \<le> length txt"
    using finditer_span[of a b padrao "txt" 0 0] by simp_all
  then have "min (length txt - a) (b - a) = b - a" by arith
  with c ab le show ?thesis
    by (simp add: citacao_de_def slice_def)
qed

theorem posicao_within_text_witness:
  "\<lparr>texto = cp ''lei 2'', posicao = (6, 11), tipo = cp ''artigo''\<rparr>
      \<in> set (extrair_citacoes_legais (cp ''Lei 1 lei 2''))
   \<and> (6::int) \<le> 11 \<and> (11::int) \<le> int (length (cp ''Lei 1 lei 2''))
   \<and> cp ''lei 2'' = take (11 - 6) (drop 6 (cp ''Lei 1 lei 2''))"
proof -
  let ?c = "\<lparr>texto = cp ''lei 2'', posicao = (6, 11), tipo = cp ''artigo''\<rparr>"
  have h: "?c \<in> set (extrair_citacoes_legais (cp ''Lei 1 lei 2''))"
    by (simp add: extrair_Lei_lei)
  from posicao_within_text[OF h] h show ?thesis by simp
qed

section \<open>Facts about the portal client\<close>

lemma buscar_Inl_is_print:
  "buscar_conteudo_lei env lei_id w = (Inl e, w') \<Longrightarrow>
     \<exists>e0 w1. buscar_try env lei_id w = (Inl e0, w1)
       \<and> print_out env (erro_buscar lei_id (exn_str env e0)) w1 = (Inl e, w')"
  by (auto simp: buscar_conteudo_lei_def split: prod.splits sum.splits)

lemma buscar_try_content:
  "buscar_try env lei_id w = (Inr (Some c), w') \<Longrightarrow> length (conteudo c) \<le> 5000"
  by (auto simp: buscar_try_def split: prod.splits sum.splits option.splits if_splits)

lemma buscar_content:
  "buscar_conteudo_lei env lei_id w = (Inr (Some c), w') \<Longrightarrow> length (conteudo c) \<le> 5000"
  using buscar_try_content[of env lei_id w c w']
  by (auto simp: buscar_conteudo_lei_def split: prod.splits sum.splits)

lemma buscar_try_None:
  "requests_get env url_busca (Some lei_id) w = (Inr resp, w1) \<Longrightarrow>
   soup_find_item env (body resp) = None
   \<or> (\<exists>it. soup_find_item env (body resp) = Some it
         \<and> (item_href it = None \<or> item_href it = Some [] \<or> item_h3 it = None)) \<Longrightarrow>
   \<exists>x w2. buscar_try env lei_id w = (x, w2) \<and> x \<noteq> Inr (Some c)"
  by (auto simp: buscar_try_def split: prod.splits sum.splits option.splits)

text \<open>
  What holds of \<open>buscar_conteudo_lei\<close> when the line of its \<open>except\<close> clause can be
  printed: it does not raise, and it returns \<open>None\<close> when the search request fails, when
  the page has no result container, when the container has no link or a link with no
  \<open>href\<close>, when it has no heading, and when the request for the link fails. The
  \<open>conteudo\<close> of a result has at most 5000 code points in any case.
\<close>

lemma buscar_conteudo_lei_printed:
  assumes pr: "\<And>s w. fst (print_out env (erro_buscar lei_id s) w) = Inr ()"
  shows "(\<exists>r w'. buscar_conteudo_lei env lei_id w = (Inr r, w'))
   \<and> (\<forall>e w1. requests_get env url_busca (Some lei_id) w = (Inl e, w1)
         \<longrightarrow> fst (buscar_conteudo_lei env lei_id w) = Inr None)
   \<and> (\<forall>resp w1. requests_get env url_busca (Some lei_id) w = (Inr resp, w1) \<longrightarrow>
         (soup_find_item env (body resp) = None
            \<longrightarrow> fst (buscar_conteudo_lei env lei_id w) = Inr None)
         \<and> (\<forall>it. soup_find_item env (body resp) = Some it
                \<and> (item_href it = None \<or> item_href it = Some [] \<or> item_h3 it = None)
            \<longrightarrow> fst (buscar_conteudo_lei env lei_id w) = Inr None)
         \<and> (\<forall>it url e w2. soup_find_item env (body resp) = Some it \<and> item_href it = Some url
              \<and> requests_get env url None w1 = (Inl e, w2)
            \<longrightarrow> fst (buscar_conteudo_lei env lei_id w) = Inr None))
   \<and> (\<forall>c w'. buscar_conteudo_lei env lei_id w = (Inr (Some c), w')
         \<longrightarrow> length (conteudo c) \<le> 5000)"
proof -
  have handler: "fst (buscar_conteudo_lei env lei_id w) = Inr None"
    if "buscar_try env lei_id w = (Inl e, w1)" for e w1
    using that pr[of "exn_str env e" w1]
    by (cases "print_out env (erro_buscar lei_id (exn_str env e)) w1")
       (simp add: buscar_conteudo_lei_def)
  have none: "fst (buscar_conteudo_lei env lei_id w) = Inr None"
    if "buscar_try env lei_id w = (x, w1)" "\<And>c. x \<noteq> Inr (Some c)" for x w1
  proof (cases x)
    case (Inl e)
    with that(1) handler show ?thesis by simp
  next
    case (Inr r)
    with that(2) have "r = None" by (cases r) auto
    with Inr that(1) show ?thesis by (simp add: buscar_conteudo_lei_def)
  qed
  have 1: "\<exists>r w'. buscar_conteudo_lei env lei_id w = (Inr r, w')"
  proof (cases "buscar_conteudo_lei env lei_id w")
    case (Pair x w')
    show ?thesis
    proof (cases x)
      case (Inl e)
      with Pair obtain e0 w1 where "print_out env (erro_buscar lei_id (exn_str env e0)) w1 = (Inl e, w')"
        using buscar_Inl_is_print[of env lei_id w e w'] by blast
      with pr[of "exn_str env e0" w1] show ?thesis by simp
    next
      case (Inr r)
      with Pair show ?thesis by simp
    qed
  qed
  have 2: "fst (buscar_conteudo_lei env lei_id w) = Inr None"
    if "requests_get env url_busca (Some lei_id) w = (Inl e, w1)" for e w1
    using that handler[of e w1] by (simp add: buscar_try_def)
  have 3: "fst (buscar_conteudo_lei env lei_id w) = Inr None"
    if g: "requests_get env url_busca (Some lei_id) w = (Inr resp, w1)"
      and h: "soup_find_item env (body resp) = None
        \<or> (\<exists>it. soup_find_item env (body resp) = Some it
             \<and> (item_href it = None \<or> item_href it = Some [] \<or> item_h3 it = None))"
    for resp w1
  proof -
    obtain x w2 where t: "buscar_try env lei_id w = (x, w2)" by (cases "buscar_try env lei_id w")
    have "x \<noteq> Inr (Some c)" for c
      using buscar_try_None[OF g h, of c] t by simp
    with t show ?thesis by (rule none)
  qed
  have 4: "fst (buscar_conteudo_lei env lei_id w) = Inr None"
    if "requests_get env url_busca (Some lei_id) w = (Inr resp, w1)"
      "soup_find_item env (body resp) = Some it" "item_href it = Some url"
      "requests_get env url None w1 = (Inl e, w2)"
    for resp w1 it url e w2
  proof -
    obtain x w3 where t: "buscar_try env lei_id w = (x, w3)" by (cases "buscar_try env lei_id w")
    have "x \<noteq> Inr (Some c)" for c
      using that t by (auto simp: buscar_try_def split: sum.splits if_splits)
    with t show ?thesis by (rule none)
  qed
  from 1 2 3 4 buscar_content[of env lei_id w] show ?thesis by blast
qed

lemmas teste_defs = env_teste_def get_teste_def item_teste_def loads_teste_def
  doc_vazio_def doc_null_def doc_ok_def doc_sem_chave_def s_discrepancias_def

lemma env_teste_sel:
  "requests_get (env_teste r s) = get_teste"
  "soup_find_item (env_teste r s) = (\<lambda>b. Some item_teste)"
  "soup_get_text (env_teste r s) = (\<lambda>b. b)"
  "llm_discrepancias (env_teste r s) = (\<lambda>t cs ctx w. (Inr r, Suc w))"
  "llm_simplificar (env_teste r s) = (\<lambda>t w. (Inr s, Suc w))"
  "json_loads (env_teste r s) = loads_teste"
  "str_rank (env_teste r s) = length"
  "exn_str (env_teste r s) = (\<lambda>e. cp ''erro'')"
  "print_out (env_teste r s) = print_utf8"
  by (simp_all add: env_teste_def)

lemma env_base_sel:
  "requests_get env_base = get_teste"
  "soup_find_item env_base = (\<lambda>b. Some item_teste)"
  "soup_get_text env_base = (\<lambda>b. b)"
  "llm_discrepancias env_base = (\<lambda>t cs ctx w. (Inr doc_vazio, Suc w))"
  "llm_simplificar env_base = (\<lambda>t w. (Inr (cp '' texto simples ''), Suc w))"
  "json_loads env_base = loads_teste"
  "str_rank env_base = length"
  "exn_str env_base = (\<lambda>e. cp ''erro'')"
  "print_out env_base = print_utf8"
  by (simp_all add: env_base_def env_teste_def)


lemma buscar_teste:
  "buscar_conteudo_lei (env_teste r s) l w =
     (Inr (Some \<lparr>lei = l, titulo = cp ''Lei'', link = cp ''http://portal/lei'',
                 conteudo = cp ''Not Found''\<rparr>), Suc (Suc w))"
  by (simp add: buscar_conteudo_lei_def buscar_try_def raise_for_status_def teste_defs cp_def)


lemma limpar_docs:
  "limpar doc_vazio = doc_vazio" "limpar doc_null = doc_null" "limpar doc_ok = doc_ok"
  "limpar doc_sem_chave = doc_sem_chave"
  by (simp_all add: limpar_def strip_def teste_defs cp_def is_space_def)

lemma loads_docs:
  "loads_teste doc_vazio = Inr (JObj [(s_discrepancias, JArr [])])"
  "loads_teste doc_null = Inr (JObj [(s_discrepancias, JNull)])"
  "loads_teste doc_ok = Inr (JObj [(s_discrepancias, JArr [JObj [(cp ''tipo'', JStr (cp ''ok''))]])])"
  "loads_teste doc_sem_chave = Inr (JObj [(cp ''resultado'', JArr [])])"
  by (simp_all add: teste_defs cp_def)

lemma strip_blank: "strip (cp ''  '') = []"
  by (simp add: strip_def cp_def is_space_def)

section \<open>Facts about the analysis and the loop over the citations\<close>

lemma buscar_printed:
  "(\<And>s w. fst (print_out env s w) = Inr ()) \<Longrightarrow>
     \<exists>r w'. buscar_conteudo_lei env lei_id w = (Inr r, w')"
  using buscar_conteudo_lei_printed[of env lei_id w] by blast

lemma juntar_printed:
  "(\<And>s w. fst (print_out env s w) = Inr ()) \<Longrightarrow>
     \<exists>ctx w'. juntar_conteudo env ls acc w = (Inr ctx, w')"
proof (induction ls arbitrary: acc w)
  case Nil
  show ?case by simp
next
  case (Cons l ls)
  obtain r w1 where b: "buscar_conteudo_lei env l w = (Inr r, w1)"
    using buscar_printed[of env l w] Cons.prems by blast
  show ?case
  proof (cases r)
    case None
    with b Cons.IH[of acc w1] Cons.prems show ?thesis by simp
  next
    case (Some c)
    with b Cons.IH[of "acc @ separador l @ take 2000 (conteudo c)" w1] Cons.prems
    show ?thesis by simp
  qed
qed

lemma conteudo_printed:
  "(\<And>s w. fst (print_out env s w) = Inr ()) \<Longrightarrow>
     \<exists>ctx w'. conteudo_das_leis env cits w = (Inr ctx, w')"
proof -
  assume pr: "\<And>s w. fst (print_out env s w) = Inr ()"
  obtain ctx w' where
    "juntar_conteudo env (sort_key (str_rank env) (leis_identificadas cits [])) [] w = (Inr ctx, w')"
    using juntar_printed[of env _ "[]" w] pr by blast
  then show ?thesis by (simp add: conteudo_das_leis_def)
qed

lemma subscript_Inr:
  "subscript v k = Inr d \<Longrightarrow> \<exists>kvs. v = JObj kvs \<and> map_of kvs k = Some d"
  by (cases v) (auto split: option.splits)

lemma conteudo_das_leis_Nil: "conteudo_das_leis env [] w = (Inr sem_conteudo, w)"
  by (simp add: conteudo_das_leis_def)

text \<open>
  What holds of \<open>analisar_discrepancias\<close> when every line that an \<open>except\<close> clause prints
  can be printed: it does not raise, and it returns the empty list when the model call
  raises, when \<open>json.loads\<close> rejects the cleaned reply, and when the parsed reply has no
  value under the key \<open>discrepancias\<close>.
\<close>

lemma analisar_discrepancias_printed:
  assumes pr: "\<And>s w. fst (print_out env s w) = Inr ()"
  shows "(\<exists>d w'. analisar_discrepancias env txt cits w = (Inr d, w'))
   \<and> (\<exists>ctx w1. conteudo_das_leis env cits w = (Inr ctx, w1)
        \<and> (\<forall>e w2. llm_discrepancias env txt cits ctx w1 = (Inl e, w2)
              \<longrightarrow> fst (analisar_discrepancias env txt cits w) = Inr (JArr []))
        \<and> (\<forall>r w2. llm_discrepancias env txt cits ctx w1 = (Inr r, w2) \<longrightarrow>
              (\<forall>e. json_loads env (limpar r) = Inl e
                 \<longrightarrow> fst (analisar_discrepancias env txt cits w) = Inr (JArr []))
              \<and> (\<forall>v. json_loads env (limpar r) = Inr v
                      \<and> \<not> (\<exists>kvs d. v = JObj kvs \<and> map_of kvs s_discrepancias = Some d)
                 \<longrightarrow> fst (analisar_discrepancias env txt cits w) = Inr (JArr []))))"
proof -
  obtain ctx w1 where c: "conteudo_das_leis env cits w = (Inr ctx, w1)"
    using conteudo_printed[of env cits w] pr by blast
  have handler: "fst (analisar_discrepancias env txt cits w) = Inr (JArr [])"
    if "analisar_try env txt cits ctx w1 = (Inl e, w2)" for e w2
    using that c pr[of "erro_analisar (exn_str env e)" w2]
    by (cases "print_out env (erro_analisar (exn_str env e)) w2")
       (simp add: analisar_discrepancias_def)
  have 1: "\<exists>d w'. analisar_discrepancias env txt cits w = (Inr d, w')"
  proof (cases "analisar_try env txt cits ctx w1")
    case (Pair x w2)
    show ?thesis
    proof (cases x)
      case (Inl e)
      with Pair handler[of e w2] show ?thesis
        by (cases "analisar_discrepancias env txt cits w") auto
    next
      case (Inr d)
      with Pair c show ?thesis by (simp add: analisar_discrepancias_def)
    qed
  qed
  have a: "fst (analisar_discrepancias env txt cits w) = Inr (JArr [])"
    if "llm_discrepancias env txt cits ctx w1 = (Inl e, w2)" for e w2
    using that handler[of e w2] by (simp add: analisar_try_def)
  have b: "fst (analisar_discrepancias env txt cits w) = Inr (JArr [])"
    if "llm_discrepancias env txt cits ctx w1 = (Inr r, w2)" "json_loads env (limpar r) = Inl e"
    for r w2 e
    using that handler[of e w2] by (simp add: analisar_try_def)
  have d: "fst (analisar_discrepancias env txt cits w) = Inr (JArr [])"
    if l: "llm_discrepancias env txt cits ctx w1 = (Inr r, w2)"
      and v: "json_loads env (limpar r) = Inr v"
      and n: "\<not> (\<exists>kvs d. v = JObj kvs \<and> map_of kvs s_discrepancias = Some d)"
    for r w2 v
  proof (cases "subscript v s_discrepancias")
    case (Inl e)
    with l v handler[of e w2] show ?thesis by (simp add: analisar_try_def)
  next
    case (Inr x)
    with n subscript_Inr show ?thesis by blast
  qed
  from c 1 a b d show ?thesis by blast
qed

lemma reunir_length:
  "reunir_leis env cits enc unicas w = (Inr (enc', unicas'), w') \<Longrightarrow>
     length enc' \<le> length enc + length cits"
proof (induction cits arbitrary: enc unicas w)
  case Nil
  then show ?case by simp
next
  case (Cons cit cits)
  show ?case
  proof (cases "lei_busca (texto cit)")
    case None
    with Cons.prems have "reunir_leis env cits enc unicas w = (Inr (enc', unicas'), w')" by simp
    from Cons.IH[OF this] show ?thesis by simp
  next
    case (Some l)
    show ?thesis
    proof (cases "l \<in> set unicas")
      case True
      with Some Cons.prems have "reunir_leis env cits enc unicas w = (Inr (enc', unicas'), w')"
        by simp
      from Cons.IH[OF this] show ?thesis by simp
    next
      case False
      obtain x w1 where b: "buscar_conteudo_lei env l w = (x, w1)"
        by (cases "buscar_conteudo_lei env l w")
      show ?thesis
      proof (cases x)
        case (Inl e)
        with Some False b Cons.prems show ?thesis by simp
      next
        case (Inr r)
        show ?thesis
        proof (cases r)
          case None
          with Some False b Inr Cons.prems
          have "reunir_leis env cits enc (unicas @ [l]) w1 = (Inr (enc', unicas'), w')" by simp
          from Cons.IH[OF this] show ?thesis by simp
        next
          case c: (Some c)
          with Some False b Inr Cons.prems
          have "reunir_leis env cits (enc @ [entrada c]) (unicas @ [l]) w1
                  = (Inr (enc', unicas'), w')"
            by simp
          from Cons.IH[OF this] show ?thesis by simp
        qed
      qed
    qed
  qed
qed

lemma reunir_distinct:
  "reunir_leis env cits enc unicas w = (Inr (enc', unicas'), w') \<Longrightarrow>
   distinct ids \<Longrightarrow> set ids \<subseteq> set unicas \<Longrightarrow>
   list_all2 (\<lambda>e l. \<exists>c wa wb. buscar_conteudo_lei env l wa = (Inr (Some c), wb) \<and> e = entrada c)
     enc ids \<Longrightarrow>
   \<exists>ids'. distinct ids'
     \<and> set ids' \<subseteq> set ids \<union> set (List.map_filter (\<lambda>c. lei_busca (texto c)) cits)
     \<and> list_all2 (\<lambda>e l. \<exists>c wa wb. buscar_conteudo_lei env l wa = (Inr (Some c), wb) \<and> e = entrada c)
          enc' ids'"
proof (induction cits arbitrary: enc unicas w ids)
  case Nil
  then show ?case by auto
next
  case (Cons cit cits)
  let ?R = "\<lambda>e l. \<exists>c wa wb. buscar_conteudo_lei env l wa = (Inr (Some c), wb) \<and> e = entrada c"
  show ?case
  proof (cases "lei_busca (texto cit)")
    case None
    with Cons.prems(1) have "reunir_leis env cits enc unicas w = (Inr (enc', unicas'), w')" by simp
    from Cons.IH[OF this Cons.prems(2,3,4)] None show ?thesis
      by (simp add: map_filter_simps)
  next
    case (Some l)
    show ?thesis
    proof (cases "l \<in> set unicas")
      case True
      with Some Cons.prems(1) have "reunir_leis env cits enc unicas w = (Inr (enc', unicas'), w')"
        by simp
      from Cons.IH[OF this Cons.prems(2,3,4)] Some show ?thesis
        by (auto simp: map_filter_simps)
    next
      case False
      obtain x w1 where b: "buscar_conteudo_lei env l w = (x, w1)"
        by (cases "buscar_conteudo_lei env l w")
      show ?thesis
      proof (cases x)
        case (Inl e)
        with Some False b Cons.prems(1) show ?thesis by simp
      next
        case (Inr r)
        show ?thesis
        proof (cases r)
          case None
          with Some False b Inr Cons.prems(1)
          have "reunir_leis env cits enc (unicas @ [l]) w1 = (Inr (enc', unicas'), w')" by simp
          moreover have "set ids \<subseteq> set (unicas @ [l])" using Cons.prems(3) by auto
          ultimately show ?thesis
            using Cons.IH[of enc "unicas @ [l]" w1 ids] Cons.prems(2,4) Some
            by (auto simp: map_filter_simps)
        next
          case c: (Some c)
          with Some False b Inr Cons.prems(1)
          have run: "reunir_leis env cits (enc @ [entrada c]) (unicas @ [l]) w1
                       = (Inr (enc', unicas'), w')"
            by simp
          have d: "distinct (ids @ [l])" using Cons.prems(2,3) False by auto
          have s: "set (ids @ [l]) \<subseteq> set (unicas @ [l])" using Cons.prems(3) by auto
          have "?R (entrada c) l" using b c Inr by blast
          then have r: "list_all2 ?R (enc @ [entrada c]) (ids @ [l])"
            using Cons.prems(4) by (intro list_all2_appendI) simp_all
          from Cons.IH[OF run d s r] Some show ?thesis
            by (auto simp: map_filter_simps)
        qed
      qed
    qed
  qed
qed

lemma extrair_abc: "extrair_citacoes_legais (cp ''abc'') = []"
  by (simp add: rx_defs lit_defs)

lemma extrair_CDC_CDC_Lei:
  "extrair_citacoes_legais (cp ''CDC CDC Lei 1'') =
     [\<lparr>texto = cp ''Lei 1'', posicao = (8, 13), tipo = cp ''lei''\<rparr>,
      \<lparr>texto = cp ''CDC'', posicao = (0, 3), tipo = cp ''artigo''\<rparr>,
      \<lparr>texto = cp ''CDC'', posicao = (4, 7), tipo = cp ''artigo''\<rparr>]"
  by (simp add: rx_defs lit_defs)

lemma analisar_base:
  "analisar_discrepancias env_base t [] w = (Inr (JArr []), Suc w)"
  by (simp add: analisar_discrepancias_def analisar_try_def conteudo_das_leis_Nil env_base_sel
      limpar_docs loads_docs)

lemma analisar_teste_ok:
  "analisar_discrepancias (env_teste doc_ok s) t [] w =
     (Inr (JArr [JObj [(cp ''tipo'', JStr (cp ''ok''))]]), Suc w)"
  by (simp add: analisar_discrepancias_def analisar_try_def conteudo_das_leis_Nil env_teste_sel
      limpar_docs loads_docs)

lemma reunir_base:
  "reunir_leis env_base (extrair_citacoes_legais (cp ''CDC CDC Lei 1'')) [] [] w =
     (Inr ([\<lparr>nome = cp ''Lei'', link_lei = cp ''http://portal/lei'', status = cp ''Vigente''\<rparr>,
            \<lparr>nome = cp ''Lei'', link_lei = cp ''http://portal/lei'', status = cp ''Vigente''\<rparr>],
           [cp ''Lei 1'', lei_8078]), Suc (Suc (Suc (Suc w))))"
proof -
  have b: "\<And>l w. buscar_conteudo_lei env_base l w =
     (Inr (Some \<lparr>lei = l, titulo = cp ''Lei'', link = cp ''http://portal/lei'',
                 conteudo = cp ''Not Found''\<rparr>), Suc (Suc w))"
    by (simp add: env_base_def buscar_teste)
  have l1: "lei_busca (cp ''Lei 1'') = Some (cp ''Lei 1'')"
    by (simp add: lei_busca_def lit_defs)
  have l2: "lei_busca (cp ''CDC'') = Some lei_8078"
    by (simp add: lei_busca_def lit_defs)
  have ne: "lei_8078 \<noteq> cp ''Lei 1''" by (simp add: lei_8078_def cp_def)
  show ?thesis
    by (simp add: extrair_CDC_CDC_Lei l1 l2 b ne entrada_def)
qed

section \<open>Fetching a law\<close>


text \<open>
  C10. The status of the answer to the second request is never read. When the search
  request returns with a status that \<open>raise_for_status\<close> accepts, the result has a link
  with a non-empty \<open>href\<close> and a heading, and the request for the link returns any
  response at all, the result is present: its \<open>conteudo\<close> is the text extracted from that
  response's body (cut to 5000 code points, as for every result), also when its status
  is 404, as in the run below.
\<close>

theorem follow_up_status_unchecked:
  "requests_get env url_busca (Some lei_id) w = (Inr resp, w1)
   \<and> raise_for_status resp = Inr ()
   \<and> soup_find_item env (body resp) = Some it
   \<and> item_href it = Some url \<and> url \<noteq> [] \<and> item_h3 it = Some t
   \<and> requests_get env url None w1 = (Inr resp2, w2)
   \<Longrightarrow> buscar_conteudo_lei env lei_id w =
         (Inr (Some \<lparr>lei = lei_id, titulo = t, link = url,
                     conteudo = take 5000 (soup_get_text env (body resp2))\<rparr>), w2)"
  by (simp add: buscar_conteudo_lei_def buscar_try_def)

theorem follow_up_status_unchecked_witness:
  "requests_get env_base url_busca (Some lei_8078) 0
      = (Inr \<lparr>status_code = 200, body = cp ''resultados''\<rparr>, 1)
   \<and> requests_get env_base (cp ''http://portal/lei'') None 1
      = (Inr \<lparr>status_code = 404, body = cp ''Not Found''\<rparr>, 2)
   \<and> raise_for_status \<lparr>status_code = 404, body = cp ''Not Found''\<rparr> = Inl HTTPError
   \<and> buscar_conteudo_lei env_base lei_8078 0 =
        (Inr (Some \<lparr>lei = lei_8078, titulo = cp ''Lei'', link = cp ''http://portal/lei'',
                    conteudo = cp ''Not Found''\<rparr>), 2)"
proof -
  let ?ok = "\<lparr>status_code = 200, body = cp ''resultados''\<rparr>"
  let ?nf = "\<lparr>status_code = 404, body = cp ''Not Found''\<rparr>"
  let ?u = "cp ''http://portal/lei''"
  have g1: "requests_get env_base url_busca (Some lei_8078) 0 = (Inr ?ok, 1)"
    by (simp add: env_base_sel get_teste_def)
  have g2: "requests_get env_base ?u None 1 = (Inr ?nf, 2)"
    by (simp add: env_base_sel get_teste_def)
  have st: "raise_for_status ?ok = Inr ()" "raise_for_status ?nf = Inl HTTPError"
    by (simp_all add: raise_for_status_def)
  have it: "soup_find_item env_base (body ?ok) = Some item_teste"
    "item_href item_teste = Some ?u" "?u \<noteq> []" "item_h3 item_teste = Some (cp ''Lei'')"
    by (simp_all add: env_base_sel item_teste_def cp_def)
  have tk: "take 5000 (soup_get_text env_base (body ?nf)) = cp ''Not Found''"
    by (simp add: env_base_sel cp_def)
  from follow_up_status_unchecked[of env_base lei_8078 0 ?ok 1 item_teste ?u "cp ''Lei''" ?nf 2] g1 g2 st it
  have "buscar_conteudo_lei env_base lei_8078 0 =
        (Inr (Some \<lparr>lei = lei_8078, titulo = cp ''Lei'', link = ?u,
                    conteudo = take 5000 (soup_get_text env_base (body ?nf))\<rparr>), 2)"
    by blast
  with tk g1 g2 st show ?thesis by simp
qed

section \<open>The discrepancies that are returned\<close>


text \<open>
  C2 at a reply the code does not discard. The model answers \<open>{"discrepancias": null}\<close>:
  this is valid JSON with the key, so nothing is raised and \<open>analisar_discrepancias\<close>
  returns the value \<open>None\<close>, which is not a list of records.
\<close>

theorem null_reply_returned:
  "llm_discrepancias (env_teste doc_null (cp ''ok'')) (cp ''abc'') [] sem_conteudo 0 = (Inr doc_null, 1)
   \<and> analisar_discrepancias (env_teste doc_null (cp ''ok'')) (cp ''abc'') [] 0 = (Inr JNull, 1)
   \<and> \<not> lista_de_registros JNull"
  by (simp add: analisar_discrepancias_def analisar_try_def conteudo_das_leis_Nil env_teste_sel
      limpar_docs loads_docs)

section \<open>The result for a document\<close>

text \<open>
  C7. In a result that \<open>processar_documento_completo\<close> returns, \<open>leisEncontradas\<close> has
  at most as many entries as \<open>citacoesEncontradas\<close> counts, which is the number of
  citations extracted; and its entries stand one to one against a list of law ids without
  repetition, each id that of a citation, each entry made from a successful fetch of its
  id. So no id has two entries.
\<close>

theorem leis_encontradas_unique:
  "processar_documento_completo env txt w = (Inr res, w') \<Longrightarrow>
     int (length (leisEncontradas res)) \<le> citacoesEncontradas res
     \<and> citacoesEncontradas res = int (length (extrair_citacoes_legais txt))
     \<and> (\<exists>ids. distinct ids
          \<and> set ids \<subseteq> set (List.map_filter (\<lambda>c. lei_busca (texto c)) (extrair_citacoes_legais txt))
          \<and> list_all2 (\<lambda>e l. \<exists>c wa wb. buscar_conteudo_lei env l wa = (Inr (Some c), wb)
                                \<and> e = entrada c)
               (leisEncontradas res) ids)"
proof -
  assume p: "processar_documento_completo env txt w = (Inr res, w')"
  let ?cits = "extrair_citacoes_legais txt"
  obtain z w1 where a0: "analisar_discrepancias env txt ?cits w = (z, w1)"
    by (cases "analisar_discrepancias env txt ?cits w")
  from p a0 obtain ds where "z = Inr ds"
    by (cases z) (simp_all add: processar_documento_completo_def)
  with a0 have a: "analisar_discrepancias env txt ?cits w = (Inr ds, w1)" by simp
  obtain x w2 where s: "simplificar_texto env txt w1 = (x, w2)"
    by (cases "simplificar_texto env txt w1")
  obtain y w3 where r: "reunir_leis env ?cits [] [] w2 = (y, w3)"
    by (cases "reunir_leis env ?cits [] [] w2")
  from p a s obtain ts where x: "x = Inr ts"
    by (cases x) (simp_all add: processar_documento_completo_def)
  from p a s r x obtain enc unicas where y: "y = Inr (enc, unicas)"
    by (cases y) (auto simp: processar_documento_completo_def)
  from p a s r x y have res: "res = \<lparr>textoSimplificado = ts, discrepancias = ds,
      leisEncontradas = enc, citacoesEncontradas = int (length ?cits)\<rparr>"
    by (simp add: processar_documento_completo_def)
  from r y have run: "reunir_leis env ?cits [] [] w2 = (Inr (enc, unicas), w3)" by simp
  from reunir_length[OF run] have "length enc \<le> length ?cits" by simp
  moreover from reunir_distinct[OF run, of "[]"]
  obtain ids where "distinct ids"
    "set ids \<subseteq> set (List.map_filter (\<lambda>c. lei_busca (texto c)) ?cits)"
    "list_all2 (\<lambda>e l. \<exists>c wa wb. buscar_conteudo_lei env l wa = (Inr (Some c), wb)
                                \<and> e = entrada c) enc ids"
    by auto
  ultimately show ?thesis using res by auto
qed

theorem leis_encontradas_unique_witness:
  "processar_documento_completo env_base (cp ''CDC CDC Lei 1'') 0 =
     (Inr \<lparr>textoSimplificado = cp ''texto simples'', discrepancias = JArr [],
           leisEncontradas =
             [\<lparr>nome = cp ''Lei'', link_lei = cp ''http://portal/lei'', status = cp ''Vigente''\<rparr>,
              \<lparr>nome = cp ''Lei'', link_lei = cp ''http://portal/lei'', status = cp ''Vigente''\<rparr>],
           citacoesEncontradas = 3\<rparr>, 10)
   \<and> int (length [\<lparr>nome = cp ''Lei'', link_lei = cp ''http://portal/lei'', status = cp ''Vigente''\<rparr>,
              \<lparr>nome = cp ''Lei'', link_lei = cp ''http://portal/lei'', status = cp ''Vigente''\<rparr>])
       \<le> (3::int)
   \<and> distinct [cp ''Lei 1'', lei_8078]"
proof -
  let ?t = "cp ''CDC CDC Lei 1''"
  let ?e = "\<lparr>nome = cp ''Lei'', link_lei = cp ''http://portal/lei'', status = cp ''Vigente''\<rparr>"
  let ?res = "\<lparr>textoSimplificado = cp ''texto simples'', discrepancias = JArr [],
           leisEncontradas = [?e, ?e], citacoesEncontradas = 3\<rparr>"
  have b: "\<And>l w. buscar_conteudo_lei env_base l w =
     (Inr (Some \<lparr>lei = l, titulo = cp ''Lei'', link = cp ''http://portal/lei'',
                 conteudo = cp ''Not Found''\<rparr>), Suc (Suc w))"
    by (simp add: env_base_def buscar_teste)
  have li: "leis_identificadas (extrair_citacoes_legais ?t) [] = [cp ''Lei 1'', lei_8078]"
    unfolding extrair_CDC_CDC_Lei by (simp add: lei_identificada_def lit_defs)
  have so: "sort_key length [cp ''Lei 1'', lei_8078] = [cp ''Lei 1'', lei_8078]"
    by (simp add: lei_8078_def cp_def)
  have ne: "separador (cp ''Lei 1'') \<noteq> []" by (simp add: separador_def)
  have c: "\<exists>ctx. conteudo_das_leis env_base (extrair_citacoes_legais ?t) 0 = (Inr ctx, 4)"
    by (simp add: conteudo_das_leis_def env_base_sel li so b ne)
  then obtain ctx where c': "conteudo_das_leis env_base (extrair_citacoes_legais ?t) 0 = (Inr ctx, 4)"
    by blast
  have a: "analisar_discrepancias env_base ?t (extrair_citacoes_legais ?t) 0 = (Inr (JArr []), 5)"
    by (simp add: analisar_discrepancias_def c' analisar_try_def env_base_sel limpar_docs loads_docs)
  have s: "simplificar_texto env_base ?t 5 = (Inr (cp ''texto simples''), 6)"
    by (simp add: simplificar_texto_def env_base_sel strip_def cp_def is_space_def)
  have n: "int (length (extrair_citacoes_legais ?t)) = 3" by (simp add: extrair_CDC_CDC_Lei)
  have run: "processar_documento_completo env_base ?t 0 = (Inr ?res, 10)"
    by (simp add: processar_documento_completo_def Let_def a s reunir_base n)
  from leis_encontradas_unique[OF run] have "int (length (leisEncontradas ?res)) \<le> citacoesEncontradas ?res"
    by blast
  then have le: "int (length [?e, ?e]) \<le> (3::int)" by simp
  have d: "distinct [cp ''Lei 1'', lei_8078]" by (simp add: lei_8078_def cp_def)
  from run le d show ?thesis by blast
qed

text \<open>
  C8, as the code has it. For a text in which no pattern matches, the model is still asked
  for discrepancies, with the empty list of citations. If that analysis raises or the
  simplification call raises, so does \<open>processar_documento_completo\<close>; otherwise the
  result has \<open>citacoesEncontradas = 0\<close>, \<open>leisEncontradas = []\<close>, for \<open>discrepancias\<close>
  the value that \<open>analisar_discrepancias\<close> returns for no citations, and for
  \<open>textoSimplificado\<close> the model's reply with the white space at its ends removed.
\<close>

theorem no_citation_result:
  "extrair_citacoes_legais txt = [] \<Longrightarrow>
     (case analisar_discrepancias env txt [] w of
        (Inl e, w1) \<Rightarrow> processar_documento_completo env txt w = (Inl e, w1)
      | (Inr d, w1) \<Rightarrow>
          (case llm_simplificar env txt w1 of
             (Inl e, w2) \<Rightarrow> processar_documento_completo env txt w = (Inl e, w2)
           | (Inr r, w2) \<Rightarrow>
               processar_documento_completo env txt w =
                 (Inr \<lparr>textoSimplificado = strip r, discrepancias = d,
                       leisEncontradas = [], citacoesEncontradas = 0\<rparr>, w2)))"
  by (auto simp: processar_documento_completo_def simplificar_texto_def
      split: prod.splits sum.splits)

theorem no_citation_result_witness:
  "extrair_citacoes_legais (cp ''abc'') = []
   \<and> analisar_discrepancias env_base (cp ''abc'') [] 0 = (Inr (JArr []), 1)
   \<and> llm_simplificar env_base (cp ''abc'') 1 = (Inr (cp '' texto simples ''), 2)
   \<and> processar_documento_completo env_base (cp ''abc'') 0 =
       (Inr \<lparr>textoSimplificado = cp ''texto simples'', discrepancias = JArr [],
             leisEncontradas = [], citacoesEncontradas = 0\<rparr>, 2)"
proof -
  have a: "analisar_discrepancias env_base (cp ''abc'') [] 0 = (Inr (JArr []), 1)"
    by (simp add: analisar_base)
  have l: "llm_simplificar env_base (cp ''abc'') 1 = (Inr (cp '' texto simples ''), 2)"
    by (simp add: env_base_sel)
  have s: "strip (cp '' texto simples '') = cp ''texto simples''"
    by (simp add: strip_def cp_def is_space_def)
  from no_citation_result[OF extrair_abc, of env_base 0] a l s
  have "processar_documento_completo env_base (cp ''abc'') 0 =
       (Inr \<lparr>textoSimplificado = cp ''texto simples'', discrepancias = JArr [],
             leisEncontradas = [], citacoesEncontradas = 0\<rparr>, 2)"
    by auto
  with extrair_abc a l show ?thesis by blast
qed

text \<open>
  C8 as it is written fails: for the text \<open>abc\<close>, in which no pattern matches, a model
  that answers the verification prompt with one discrepancy and the simplification prompt
  with two spaces gives a result with a non-empty \<open>discrepancias\<close> and an empty
  \<open>textoSimplificado\<close>.
\<close>

theorem no_citation_nonempty_discrepancias:
  "extrair_citacoes_legais (cp ''abc'') = []
   \<and> processar_documento_completo (env_teste doc_ok (cp ''  '')) (cp ''abc'') 0 =
     (Inr \<lparr>textoSimplificado = [],
           discrepancias = JArr [JObj [(cp ''tipo'', JStr (cp ''ok''))]],
           leisEncontradas = [], citacoesEncontradas = 0\<rparr>, 2)"
  by (simp add: processar_documento_completo_def extrair_abc analisar_teste_ok
      simplificar_texto_def env_teste_sel strip_blank)

end
